theory Spec2Isabelle
  imports Complex_Main
begin

section \<open>Numbers, points and errors\<close>

text \<open>
  The sources are TypeScript. A JavaScript number is modelled as a \<^typ>\<open>real\<close>:
  the arithmetic of the layout code is then exact, and a statement "within
  floating-point tolerance" becomes an equation. \<open>getLocation\<close> and
  \<open>unscaleVector\<close> guard their division by the scale and are modelled with the guard.
  \<open>locationOffset\<close> and \<open>_transferViewOffsetToLocation\<close> divide without one; for
  a scale with a zero component JavaScript produces an infinity or NaN there, which
  \<^typ>\<open>real\<close> does not have (HOL's \<open>a / 0\<close> is \<open>0\<close>), and the theorems below
  that pass through such a division conclude nothing about its value.
\<close>

record IPoint =
  px :: real
  py :: real

text \<open>\<open>Partial<IPoint>\<close>: each component may be undefined.\<close>

record PartialPoint =
  ox :: "real option"
  oy :: "real option"

definition zeroPoint :: IPoint where
  "zeroPoint = \<lparr>px = 0, py = 0\<rparr>"

text \<open>
  JavaScript truthiness of an optional number, as in \<open>if (options.scale.x)\<close>:
  undefined and \<open>0\<close> are falsy.
\<close>

definition truthy :: "real option \<Rightarrow> bool" where
  "truthy v = (case v of None \<Rightarrow> False | Some r \<Rightarrow> r \<noteq> 0)"

datatype error =
  MismatchedUpdate
  | ViewNotAvailable
  | AlreadyUpdating
  | SubclassError

section \<open>The coordinator: \<open>EvergridLayout\<close>\<close>

text \<open>
  An animation object of the framework, as the coordinator builds it:
  \<open>Animated.decay\<close> with its velocity, \<open>Animated.timing\<close> with its target,
  \<open>Animated.spring\<close> with its target and velocity.
\<close>

datatype animation =
  Decay IPoint
  | Timing IPoint
  | Spring IPoint IPoint

text \<open>
  What the coordinator does to its collaborators is kept in the list \<open>calls\<close>, in
  the order it happens: \<open>setNeedsUpdate()\<close> on a layout source, starting and stopping an
  animation, the interaction handle of the framework, the \<open>onEnd\<close> callback of a
  scroll, scroll locking on the view, and the press callbacks. \<open>UpdateRun\<close>
  records that \<open>update()\<close> was entered; it is the only entry that is not a call to
  a collaborator.
\<close>

datatype event =
  UpdateRun
  | SourceSetNeedsUpdate nat
  | AnimationStart animation
  | AnimationStop animation
  | CreateInteractionHandle
  | ClearInteractionHandle
  | OnEnd bool
  | LockScroll
  | UnlockScroll
  | OnPressIn
  | OnPressOut
  | OnPress

record IScrollInfo =
  location :: IPoint
  velocity :: IPoint
  offset :: IPoint
  scaledVelocity :: IPoint

text \<open>
  The private fields of the class. A layout source is known to the coordinator by an
  identifier, and \<open>hasView\<close> says that the weak reference to the host view is set. \<open>viewOffset_anim\<close> is the current value of the
  animated \<open>viewOffset$\<close>, \<open>viewOffset\<close> the plain mirror \<open>_viewOffset\<close>;
  \<open>_locationOffsetBase\<close> and its animated twin always hold the same point and share
  one field. \<open>panTargetIsDefault\<close> says that \<open>_panTarget$\<close> is \<open>viewOffset$\<close>,
  and \<open>panTargetValue\<close> is the value of a pan target supplied by the caller.
  \<open>interactionHandle\<close> and \<open>updateTimer\<close> are \<open>0\<close> when unset, and the
  handle the framework hands out is \<open>1\<close>. An animation in
  \<open>descelerationAnimation\<close> carries whether the coordinator has started it and
  whether its completion handler also calls the \<open>onEnd\<close> of the scroll options.
\<close>

record EvergridLayout =
  layoutSources :: "nat list"
  hasView :: bool
  snapToLocation :: "(IScrollInfo \<Rightarrow> PartialPoint option) option"
  locationOffsetBase :: IPoint
  scale :: IPoint
  hasScale :: bool
  anchor :: IPoint
  panVelocty :: IPoint
  panStarted :: bool
  panDefaultPrevented :: bool
  panTargetIsDefault :: bool
  panTargetValue :: IPoint
  isLongPress :: bool
  descelerationAnimation :: "(animation \<times> bool \<times> bool) option"
  viewOffset :: IPoint
  viewOffset_anim :: IPoint
  containerSize :: IPoint
  hasContainerSize :: bool
  interactionHandle :: nat
  updateDepth :: int
  updateTimer :: nat
  calls :: "event list"

subsection \<open>Coordinate conversions\<close>

definition containerOriginOffset :: "EvergridLayout \<Rightarrow> IPoint" where
  "containerOriginOffset s =
     \<lparr>px = - (px (containerSize s)) * px (anchor s),
      py = - (py (containerSize s)) * py (anchor s)\<rparr>"

definition locationOffset :: "EvergridLayout \<Rightarrow> IPoint" where
  "locationOffset s =
     \<lparr>px = px (locationOffsetBase s) + px (viewOffset s) / px (scale s),
      py = py (locationOffsetBase s) + py (viewOffset s) / py (scale s)\<rparr>"

definition scaleVector :: "EvergridLayout \<Rightarrow> IPoint \<Rightarrow> IPoint" where
  "scaleVector s point =
     \<lparr>px = px point * px (scale s), py = py point * py (scale s)\<rparr>"

definition unscaleVector :: "EvergridLayout \<Rightarrow> IPoint \<Rightarrow> IPoint" where
  "unscaleVector s point =
     (if px (scale s) = 0 \<or> py (scale s) = 0 then zeroPoint
      else \<lparr>px = px point / px (scale s), py = py point / py (scale s)\<rparr>)"

definition contentVelocity :: "EvergridLayout \<Rightarrow> IPoint" where
  "contentVelocity s = unscaleVector s (panVelocty s)"

text \<open>
  \<open>getContainerLocation(point, options)\<close>: the optional \<open>options.scale\<close> multiplies
  the coordinator's scale on each axis where it is truthy.
\<close>

definition getContainerLocation ::
  "EvergridLayout \<Rightarrow> IPoint \<Rightarrow> PartialPoint option \<Rightarrow> IPoint" where
  "getContainerLocation s point scale_opt =
     (let xl0 = px (locationOffsetBase s);
          yl0 = py (locationOffsetBase s);
          x0 = px (containerOriginOffset s);
          y0 = py (containerOriginOffset s);
          cpx = px (viewOffset s) - x0;
          cpy = py (viewOffset s) - y0;
          sx = (case scale_opt of
                  None \<Rightarrow> px (scale s)
                | Some o_scale \<Rightarrow>
                    if truthy (ox o_scale) then px (scale s) * the (ox o_scale)
                    else px (scale s));
          sy = (case scale_opt of
                  None \<Rightarrow> py (scale s)
                | Some o_scale \<Rightarrow>
                    if truthy (oy o_scale) then py (scale s) * the (oy o_scale)
                    else py (scale s))
      in \<lparr>px = cpx + (px point + xl0) * sx, py = cpy + (py point + yl0) * sy\<rparr>)"

definition getLocation :: "EvergridLayout \<Rightarrow> IPoint \<Rightarrow> IPoint" where
  "getLocation s point =
     (if px (scale s) = 0 \<or> py (scale s) = 0 then zeroPoint
      else
        (let xl0 = px (locationOffsetBase s);
             yl0 = py (locationOffsetBase s);
             x0 = px (containerOriginOffset s);
             y0 = py (containerOriginOffset s)
         in \<lparr>px = - xl0 - (px point - x0) / px (scale s),
             py = - yl0 - (py point - y0) / py (scale s)\<rparr>))"

subsection \<open>Update batching\<close>

text \<open>
  A call that throws is \<open>Inl\<close> of the error and the state at the throw (the fields
  are mutated in place, so what was written before the throw stays written); a call that
  returns is \<open>Inr\<close>.
\<close>

type_synonym 'a result = "(error \<times> EvergridLayout) + 'a"

definition bindE :: "'a result \<Rightarrow> ('a \<Rightarrow> 'b result) \<Rightarrow> 'b result" where
  "bindE m f = (case m of Inl e \<Rightarrow> Inl e | Inr v \<Rightarrow> f v)"

definition state_of :: "EvergridLayout result \<Rightarrow> EvergridLayout" where
  "state_of r = (case r of Inl (e, s) \<Rightarrow> s | Inr s \<Rightarrow> s)"

definition emit :: "event \<Rightarrow> EvergridLayout \<Rightarrow> EvergridLayout" where
  "emit e s = s\<lparr>calls := calls s @ [e]\<rparr>"

definition beginUpdate :: "EvergridLayout \<Rightarrow> EvergridLayout" where
  "beginUpdate s = s\<lparr>updateDepth := updateDepth s + 1\<rparr>"

definition cancelScheduledUpdate :: "EvergridLayout \<Rightarrow> EvergridLayout" where
  "cancelScheduledUpdate s = (if updateTimer s \<noteq> 0 then s\<lparr>updateTimer := 0\<rparr> else s)"

text \<open>
  \<open>update()\<close>: the two latches, then \<open>setNeedsUpdate()\<close> on every layout source in
  registration order.
\<close>

definition update :: "EvergridLayout \<Rightarrow> EvergridLayout" where
  "update s0 =
     (let s1 = cancelScheduledUpdate (emit UpdateRun s0) in
      if \<not> hasContainerSize s1
         \<and> \<not> (px (containerSize s1) \<ge> 1 \<and> py (containerSize s1) \<ge> 1)
      then s1
      else
        (let s2 = (if \<not> hasContainerSize s1 then s1\<lparr>hasContainerSize := True\<rparr> else s1) in
         if \<not> hasScale s2 \<and> \<not> (px (scale s2) \<noteq> 0 \<and> py (scale s2) \<noteq> 0)
         then s2
         else
           (let s3 = (if \<not> hasScale s2 then s2\<lparr>hasScale := True\<rparr> else s2)
            in s3\<lparr>calls := calls s3 @ map SourceSetNeedsUpdate (layoutSources s3)\<rparr>)))"

definition scheduleUpdate :: "EvergridLayout \<Rightarrow> EvergridLayout" where
  "scheduleUpdate s = (if updateTimer s \<noteq> 0 then s else update s)"

definition endUpdate :: "EvergridLayout \<Rightarrow> EvergridLayout result" where
  "endUpdate s0 =
     (let s1 = s0\<lparr>updateDepth := updateDepth s0 - 1\<rparr> in
      if updateDepth s1 < 0 then Inl (MismatchedUpdate, s1\<lparr>updateDepth := 0\<rparr>)
      else if updateDepth s1 > 0 then Inr s1
      else Inr (scheduleUpdate s1))"

definition setNeedsUpdate :: "EvergridLayout \<Rightarrow> EvergridLayout result" where
  "setNeedsUpdate s = endUpdate (beginUpdate s)"

text \<open>\<open>n\<close> calls of \<open>beginUpdate\<close>, and \<open>n\<close> calls of \<open>endUpdate\<close>, one after the other.\<close>

fun beginUpdates :: "nat \<Rightarrow> EvergridLayout \<Rightarrow> EvergridLayout" where
  "beginUpdates 0 s = s"
| "beginUpdates (Suc n) s = beginUpdates n (beginUpdate s)"

fun endUpdates :: "nat \<Rightarrow> EvergridLayout \<Rightarrow> EvergridLayout result" where
  "endUpdates 0 s = Inr s"
| "endUpdates (Suc n) s = bindE (endUpdate s) (endUpdates n)"

definition updateRuns :: "EvergridLayout \<Rightarrow> nat" where
  "updateRuns s = length (filter (\<lambda>e. e = UpdateRun) (calls s))"

subsection \<open>Animated values and their listeners\<close>

text \<open>
  Modelled from the spec: the framework's animatable value (\<open>Animated.ValueXY\<close>) is
  not part of the sources; the spec gives it an imperative \<open>setValue\<close> and change
  subscriptions. \<open>setValue\<close> stores the point and calls the listener the constructor
  registered, once, with the new point. The listeners themselves are the constructor's:
  \<open>_onViewOffsetChange\<close> for \<open>viewOffset$\<close>, and for \<open>_locationOffsetBase$\<close> the
  assignment followed by \<open>didChangeLocation()\<close>.
\<close>

definition onViewOffsetChange :: "IPoint \<Rightarrow> EvergridLayout \<Rightarrow> EvergridLayout result" where
  "onViewOffsetChange p s = setNeedsUpdate (s\<lparr>viewOffset := p\<rparr>)"

definition viewOffset_setValue :: "IPoint \<Rightarrow> EvergridLayout \<Rightarrow> EvergridLayout result" where
  "viewOffset_setValue p s = onViewOffsetChange p (s\<lparr>viewOffset_anim := p\<rparr>)"

definition locationOffsetBase_setValue ::
  "IPoint \<Rightarrow> EvergridLayout \<Rightarrow> EvergridLayout result" where
  "locationOffsetBase_setValue p s = setNeedsUpdate (s\<lparr>locationOffsetBase := p\<rparr>)"

definition panTarget_setValue :: "IPoint \<Rightarrow> EvergridLayout \<Rightarrow> EvergridLayout result" where
  "panTarget_setValue p s =
     (if panTargetIsDefault s then viewOffset_setValue p s
      else Inr (s\<lparr>panTargetValue := p\<rparr>))"

subsection \<open>Interaction handle, deceleration and scrolling\<close>

definition startInteraction :: "EvergridLayout \<Rightarrow> EvergridLayout" where
  "startInteraction s =
     (if interactionHandle s = 0
      then emit CreateInteractionHandle (s\<lparr>interactionHandle := 1\<rparr>)
      else s)"

definition endInteration :: "EvergridLayout \<Rightarrow> EvergridLayout" where
  "endInteration s =
     (if interactionHandle s \<noteq> 0
      then (emit ClearInteractionHandle s)\<lparr>interactionHandle := 0\<rparr>
      else s)"

definition transferViewOffsetToLocation :: "EvergridLayout \<Rightarrow> EvergridLayout result" where
  "transferViewOffsetToLocation s0 =
     (let s1 = beginUpdate s0;
          location =
            \<lparr>px = px (locationOffsetBase s1) + px (viewOffset s1) / px (scale s1),
             py = py (locationOffsetBase s1) + py (viewOffset s1) / py (scale s1)\<rparr>;
          s2 = s1\<lparr>viewOffset := zeroPoint, locationOffsetBase := location\<rparr>
      in bindE (locationOffsetBase_setValue location s2) endUpdate)"

definition onStartDeceleration :: "EvergridLayout \<Rightarrow> EvergridLayout" where
  "onStartDeceleration s = startInteraction s"

definition onEndDeceleration :: "EvergridLayout \<Rightarrow> EvergridLayout result" where
  "onEndDeceleration s0 =
     bindE (transferViewOffsetToLocation s0) (\<lambda>s1.
     bindE (panTarget_setValue zeroPoint s1) (\<lambda>s2.
     Inr (endInteration (s2\<lparr>descelerationAnimation := None\<rparr>))))"

text \<open>
  Modelled from the spec: \<open>stop()\<close> of a framework animation is not part of the
  sources; by the spec an in-flight animation that is stopped still has its completion
  handler run, with \<open>finished: false\<close>. The handler the coordinator passes to
  \<open>start\<close> is \<open>_onEndDeceleration\<close>, followed in \<open>scrollToOffset\<close> by the
  \<open>onEnd\<close> of the options. An animation the coordinator has not started has no
  handler of the coordinator's.
\<close>

definition stopDescelerationAnimation :: "EvergridLayout \<Rightarrow> EvergridLayout result" where
  "stopDescelerationAnimation s =
     (case descelerationAnimation s of
        None \<Rightarrow> Inr s
      | Some (a, started, withOnEnd) \<Rightarrow>
          if started then
            bindE (onEndDeceleration (emit (AnimationStop a) s)) (\<lambda>s1.
            Inr (if withOnEnd then emit (OnEnd False) s1 else s1))
          else Inr (emit (AnimationStop a) s))"

text \<open>
  The options of \<open>scrollToOffset\<close>. Of the timing and spring configurations only what
  the coordinator reads is kept: that \<open>timing\<close> is given, and the \<open>velocity\<close> of
  \<open>spring\<close>. \<open>onEnd\<close> says that the callback is given.
\<close>

record ScrollOptions =
  so_offset :: PartialPoint
  animated :: bool
  timing :: bool
  spring :: "IPoint option option"
  manualStart :: bool
  onEnd :: bool

definition scrollToOffset ::
  "ScrollOptions \<Rightarrow> EvergridLayout \<Rightarrow> (animation option \<times> EvergridLayout) result" where
  "scrollToOffset options s0 =
     (if panStarted s0 then Inr (None, s0)
      else
        (let base = locationOffsetBase s0;
             offset = \<lparr>px = (case ox (so_offset options) of None \<Rightarrow> px base | Some v \<Rightarrow> v),
                       py = (case oy (so_offset options) of None \<Rightarrow> py base | Some v \<Rightarrow> v)\<rparr>;
             hasOffset = (ox (so_offset options) \<noteq> None \<or> oy (so_offset options) \<noteq> None)
         in if \<not> hasOffset then Inr (None, s0)
            else
              bindE (stopDescelerationAnimation s0) (\<lambda>s1.
              bindE (transferViewOffsetToLocation
                       (startInteraction (s1\<lparr>descelerationAnimation := None\<rparr>))) (\<lambda>s2.
              if \<not> animated options then
                bindE (locationOffsetBase_setValue offset s2) (\<lambda>s3.
                bindE (onEndDeceleration s3) (\<lambda>s4.
                Inr (None, if onEnd options then emit (OnEnd True) s4 else s4)))
              else
                (let a = (if timing options then Timing offset
                          else Spring offset
                                 (case spring options of
                                    Some (Some v) \<Rightarrow> v
                                  | _ \<Rightarrow> contentVelocity s2))
                 in if \<not> manualStart options then
                      Inr (Some a,
                           emit (AnimationStart a)
                             (onStartDeceleration
                                (s2\<lparr>descelerationAnimation := Some (a, True, onEnd options)\<rparr>)))
                    else
                      Inr (Some a,
                           endInteration
                             (s2\<lparr>descelerationAnimation := Some (a, False, False)\<rparr>)))))))"

subsection \<open>The pan gesture\<close>

definition kPanSpeedMin :: real where
  "kPanSpeedMin = 0.001"

definition onBeginPan :: "EvergridLayout \<Rightarrow> EvergridLayout result" where
  "onBeginPan s0 =
     (if \<not> hasView s0 then Inl (ViewNotAvailable, s0)
      else
        (let s1 = (emit LockScroll s0)\<lparr>panStarted := True, panDefaultPrevented := False\<rparr> in
         bindE (stopDescelerationAnimation s1) (\<lambda>s2.
         bindE (panTarget_setValue zeroPoint (s2\<lparr>descelerationAnimation := None\<rparr>)) (\<lambda>s3.
         Inr ((emit OnPressIn (startInteraction s3))\<lparr>isLongPress := False\<rparr>)))))"

text \<open>
  The \<open>IScrollInfo\<close> that \<open>_onEndPan\<close> hands to the \<open>snapToLocation\<close> callback,
  and the callback's answer: \<open>None\<close> when no callback is given, when the default pan
  was prevented, or when the callback returns undefined.
\<close>

definition endPanScrollInfo :: "EvergridLayout \<Rightarrow> IScrollInfo" where
  "endPanScrollInfo s =
     \<lparr>location = locationOffset s, velocity = contentVelocity s,
      offset = viewOffset s, scaledVelocity = panVelocty s\<rparr>"

definition maybeScrollLocation :: "EvergridLayout \<Rightarrow> PartialPoint option" where
  "maybeScrollLocation s =
     (if \<not> panDefaultPrevented s then
        (case snapToLocation s of None \<Rightarrow> None | Some snap \<Rightarrow> snap (endPanScrollInfo s))
      else None)"

definition onEndPan :: "EvergridLayout \<Rightarrow> EvergridLayout result" where
  "onEndPan s0 =
     (let s1 = s0\<lparr>panStarted := False\<rparr>;
          handled = panDefaultPrevented s1;
          offset = locationOffset s1;
          panVelocity = panVelocty s1;
          velocity = contentVelocity s1
      in if panTargetIsDefault s1 then
           (case maybeScrollLocation s1 of
              Some loc \<Rightarrow>
                bindE (scrollToOffset
                         \<lparr>so_offset =
                            \<lparr>ox = Some (case ox loc of None \<Rightarrow> px offset | Some v \<Rightarrow> v),
                             oy = Some (case oy loc of None \<Rightarrow> py offset | Some v \<Rightarrow> v)\<rparr>,
                          animated = True, timing = False, spring = Some (Some velocity),
                          manualStart = False, onEnd = False\<rparr> s1) (\<lambda>(a, s2).
                Inr (s2\<lparr>panVelocty := zeroPoint\<rparr>))
            | None \<Rightarrow>
                if \<not> handled then
                  (let isZeroVelocity =
                         (\<bar>px panVelocity\<bar> < kPanSpeedMin \<and> \<bar>py panVelocity\<bar> < kPanSpeedMin)
                   in if \<not> isZeroVelocity then
                        Inr ((emit (AnimationStart (Decay panVelocity))
                                (onStartDeceleration
                                   (s1\<lparr>descelerationAnimation :=
                                          Some (Decay panVelocity, True, False)\<rparr>)))
                             \<lparr>panVelocty := zeroPoint\<rparr>)
                      else
                        bindE (onEndDeceleration s1) (\<lambda>s2.
                        Inr (s2\<lparr>panVelocty := zeroPoint\<rparr>)))
                else Inr (s1\<lparr>panVelocty := zeroPoint\<rparr>))
         else Inr (s1\<lparr>panVelocty := zeroPoint\<rparr>))"

text \<open>The number of animations the coordinator has started, read off the list of calls.\<close>

definition animationStarts :: "EvergridLayout \<Rightarrow> nat" where
  "animationStarts s =
     length (filter (\<lambda>e. case e of AnimationStart a \<Rightarrow> True | _ \<Rightarrow> False) (calls s))"

definition preventDefaultPan :: "EvergridLayout \<Rightarrow> EvergridLayout result" where
  "preventDefaultPan s =
     (if panDefaultPrevented s then Inr s
      else
        (let s1 = s\<lparr>panDefaultPrevented := True\<rparr>
         in if panStarted s1 then onEndPan s1 else Inr s1))"

definition onPressOut :: "EvergridLayout \<Rightarrow> EvergridLayout result" where
  "onPressOut s0 =
     (if \<not> hasView s0 then Inl (ViewNotAvailable, s0)
      else
        (let s1 = emit UnlockScroll s0 in
         bindE (if panStarted s1 then onEndPan s1 else Inr (endInteration s1)) (\<lambda>s2.
         (let s3 = emit OnPressOut (s2\<lparr>panDefaultPrevented := False\<rparr>);
              s4 = (if \<not> isLongPress s3 then emit OnPress s3 else s3)
          in Inr (s4\<lparr>isLongPress := False\<rparr>)))))"

subsection \<open>The listeners of the container size and of the scale\<close>

text \<open>
  The constructor's listener on \<open>containerSize$\<close> drops a size with a component that
  is not positive and a change of less than one pixel on both axes; its listener on
  \<open>scale$\<close> drops a scale with a zero component and a repeated value. What they
  keep is stored and followed by \<open>setNeedsUpdate()\<close>; the optional callbacks
  \<open>onViewportSizeChanged\<close> and \<open>onScaleChanged\<close> are not recorded.
\<close>

definition onContainerSizeChange :: "IPoint \<Rightarrow> EvergridLayout \<Rightarrow> EvergridLayout result" where
  "onContainerSizeChange p s =
     (if px p \<le> 0 \<or> py p \<le> 0 then Inr s
      else if \<bar>px p - px (containerSize s)\<bar> < 1 \<and> \<bar>py p - py (containerSize s)\<bar> < 1
      then Inr s
      else setNeedsUpdate (s\<lparr>containerSize := p\<rparr>))"

definition onScaleChange :: "IPoint \<Rightarrow> EvergridLayout \<Rightarrow> EvergridLayout result" where
  "onScaleChange p s =
     (if px p = 0 \<or> py p = 0 then Inr s
      else if px p = px (scale s) \<and> py p = py (scale s) then Inr s
      else setNeedsUpdate (s\<lparr>scale := p\<rparr>))"

subsection \<open>The operations of the coordinator, one at a time\<close>

datatype operation =
  BeginUpdate
  | EndUpdate
  | SetNeedsUpdate
  | Update
  | ContainerSizeChanged IPoint
  | ScaleChanged IPoint
  | ViewOffsetChanged IPoint
  | ScrollToOffset ScrollOptions
  | BeginPan
  | PressOut
  | PreventDefaultPan
  | StopAnimation

fun run :: "operation \<Rightarrow> EvergridLayout \<Rightarrow> EvergridLayout result" where
  "run BeginUpdate s = Inr (beginUpdate s)"
| "run EndUpdate s = endUpdate s"
| "run SetNeedsUpdate s = setNeedsUpdate s"
| "run Update s = Inr (update s)"
| "run (ContainerSizeChanged p) s = onContainerSizeChange p s"
| "run (ScaleChanged p) s = onScaleChange p s"
| "run (ViewOffsetChanged p) s = viewOffset_setValue p s"
| "run (ScrollToOffset options) s = bindE (scrollToOffset options s) (\<lambda>(a, s1). Inr s1)"
| "run BeginPan s = onBeginPan s"
| "run PressOut s = onPressOut s"
| "run PreventDefaultPan s = preventDefaultPan s"
| "run StopAnimation s = stopDescelerationAnimation s"

text \<open>
  Two relations between a state and a later one, used to say what an operation leaves
  alone. \<open>latches_kept\<close>: a latch that is set stays set, no timer appears, and the
  depth does not become negative. \<open>gesture_kept\<close>: in addition the two flags of the
  pan gesture are as they were. \<open>batching_only\<close>: in addition no animation was started.
  \<open>pan_consistent\<close>: a pan that is in progress has not been prevented.
\<close>

definition latches_kept :: "EvergridLayout \<Rightarrow> EvergridLayout \<Rightarrow> bool" where
  "latches_kept s s' \<longleftrightarrow>
     (hasContainerSize s \<longrightarrow> hasContainerSize s') \<and> (hasScale s \<longrightarrow> hasScale s')
     \<and> (updateTimer s = 0 \<longrightarrow> updateTimer s' = 0) \<and> (0 \<le> updateDepth s \<longrightarrow> 0 \<le> updateDepth s')"

definition gesture_kept :: "EvergridLayout \<Rightarrow> EvergridLayout \<Rightarrow> bool" where
  "gesture_kept s s' \<longleftrightarrow>
     latches_kept s s'
     \<and> panStarted s' = panStarted s \<and> panDefaultPrevented s' = panDefaultPrevented s"

definition batching_only :: "EvergridLayout \<Rightarrow> EvergridLayout \<Rightarrow> bool" where
  "batching_only s s' \<longleftrightarrow> gesture_kept s s' \<and> animationStarts s' = animationStarts s"

definition pan_consistent :: "EvergridLayout \<Rightarrow> bool" where
  "pan_consistent s \<longleftrightarrow> (panStarted s \<longrightarrow> \<not> panDefaultPrevented s)"

text \<open>
  A coordinator for the examples below: no layout source, unit scale, nothing measured
  yet, no gesture and no animation; and the same coordinator at the release of a pan
  with a given velocity.
\<close>

definition idleLayout :: EvergridLayout where
  "idleLayout =
     \<lparr>layoutSources = [], hasView = True, snapToLocation = None,
      locationOffsetBase = zeroPoint, scale = \<lparr>px = 1, py = 1\<rparr>, hasScale = False,
      anchor = zeroPoint, panVelocty = zeroPoint, panStarted = False,
      panDefaultPrevented = False, panTargetIsDefault = True,
      panTargetValue = zeroPoint, isLongPress = False,
      descelerationAnimation = None, viewOffset = zeroPoint,
      viewOffset_anim = zeroPoint, containerSize = zeroPoint,
      hasContainerSize = False, interactionHandle = 0, updateDepth = 0,
      updateTimer = 0, calls = []\<rparr>"

definition releasedLayout :: "IPoint \<Rightarrow> EvergridLayout" where
  "releasedLayout v = idleLayout\<lparr>panStarted := True, panVelocty := v, interactionHandle := 1\<rparr>"

section \<open>The layout source: \<open>LayoutSource\<close>\<close>

subsection \<open>Items, properties and the subclass\<close>

text \<open>\<open>ILayout<IPoint>\<close>: an offset and a size.\<close>

record ILayout =
  l_offset :: IPoint
  l_size :: IPoint

text \<open>
  What \<open>getItemContentLayout\<close> returns is spread over the item's layout, and
  \<open>updateItem\<close> tests the offset and the size before use: both may be missing.
\<close>

record IItemLayout =
  il_offset :: "IPoint option"
  il_size :: "IPoint option"

text \<open>
  An item record. \<open>animContentLayout\<close> holds the current values of the animated
  mirror \<open>animated.contentLayout\<close>, \<open>opacity\<close> and \<open>renderNonce\<close> those of
  \<open>animated.opacity\<close> and \<open>animated.renderNonce\<close>. The handle \<open>ref\<close> and the
  derived \<open>animated.viewLayout\<close> are never written after creation and are left out.
  A \<open>reuseID\<close> that is undefined is the empty string (both are falsy where the
  source tests it).
\<close>

record 'i IItem =
  index :: 'i
  reuseID :: string
  zIndex :: real
  contentLayout :: ILayout
  animContentLayout :: ILayout
  opacity :: real
  renderNonce :: real

text \<open>
  The properties the update engine reads, after the defaults are merged in. The
  callbacks \<open>willShowItem\<close> and \<open>willHideItem\<close> are optional: the field says
  whether one is given.
\<close>

record 'i LayoutSourceProps =
  p_zIndex :: "real option"
  p_reuseID :: "string option"
  p_getReuseID :: "('i \<Rightarrow> string) option"
  shouldRenderItem :: "'i IItem \<Rightarrow> 'i \<times> ILayout \<Rightarrow> bool"
  willShowItem :: bool
  willHideItem :: bool
  showDuration :: "real option"

text \<open>A step of a generator: it yields a value, or it throws.\<close>

datatype 'a gen_step = Yield 'a | GenThrow

record 'i IItemUpdate =
  add :: "'i option"
  remove :: "'i option"

text \<open>
  What a concrete subclass supplies for one update: the layout of an index (which may
  throw), the sequences \<open>itemUpdates()\<close> and \<open>visibleIndexes()\<close> as the steps the
  generators take, and the clock read by \<open>new Date()\<close>.
\<close>

record 'i Subclass =
  getItemContentLayout :: "'i \<Rightarrow> error + IItemLayout"
  itemUpdates :: "'i IItemUpdate gen_step list"
  visibleIndexes :: "'i gen_step list"
  now :: real

text \<open>
  What the layout source does to the outside, in order: the two callbacks with the item
  they receive, \<open>console.error\<close> in \<open>_dequeueItem\<close> and in the handler of
  \<open>updateItems\<close>, and \<open>setNeedsRender()\<close> on the view.
\<close>

datatype 'i effect =
  WillShowItem "'i IItem"
  | WillHideItem "'i IItem"
  | DequeueMismatchLogged
  | UpdateErrorLogged
  | SetNeedsRender

text \<open>
  Modelled from the spec: the visible-index map and the view are not part of the
  sources (\<open>getVisibleItem\<close> and \<open>setVisibleItem\<close> are abstract in the class and no
  subclass is given; the view is imported from elsewhere). By the spec a layout source
  owns a map from visible index to item record, here \<open>visibleItems\<close>, and the view has
  a boolean "needs render", here \<open>needsRender\<close>. The other fields are the fields of
  the class that the update engine uses: \<open>props\<close>, \<open>id\<close>, \<open>_zIndex\<close>,
  \<open>_itemQueues\<close> and \<open>_updating\<close>; \<open>effects\<close> is the trace of what the source
  did to the outside.
\<close>

record 'i LayoutSource =
  props :: "'i LayoutSourceProps"
  ls_id :: string
  own_zIndex :: real
  itemQueues :: "string \<rightharpoonup> 'i IItem list"
  updating :: bool
  visibleItems :: "'i \<rightharpoonup> 'i IItem"
  needsRender :: bool
  effects :: "'i effect list"

type_synonym ('i, 'a) ls_result = "(error \<times> 'i LayoutSource) + 'a"

definition effect :: "'i effect \<Rightarrow> 'i LayoutSource \<Rightarrow> 'i LayoutSource" where
  "effect e s = s\<lparr>effects := effects s @ [e]\<rparr>"

text \<open>
  Modelled from the spec: \<open>getVisibleItem\<close> and \<open>setVisibleItem\<close> of the missing
  subclass, as the lookup and the update of the visible-index map, and
  \<open>setNeedsRender\<close> of the missing view, as the setting of its flag.
\<close>

definition getVisibleItem :: "'i LayoutSource \<Rightarrow> 'i \<Rightarrow> 'i IItem option" where
  "getVisibleItem s i = visibleItems s i"

definition setVisibleItem :: "'i \<Rightarrow> 'i IItem option \<Rightarrow> 'i LayoutSource \<Rightarrow> 'i LayoutSource" where
  "setVisibleItem i item s = s\<lparr>visibleItems := (visibleItems s)(i := item)\<rparr>"

definition setNeedsRender :: "'i LayoutSource \<Rightarrow> 'i LayoutSource" where
  "setNeedsRender s = effect SetNeedsRender (s\<lparr>needsRender := True\<rparr>)"

text \<open>
  Modelled from the spec: \<open>getLazyArray\<close> of \<open>./util\<close> is not part of the sources;
  the spec keeps one pool of retired records per reuseID. It returns the array stored
  under the key, storing an empty one first when the key has none.
\<close>

definition getLazyArray ::
  "(string \<rightharpoonup> 'a list) \<Rightarrow> string \<Rightarrow> 'a list \<times> (string \<rightharpoonup> 'a list)" where
  "getLazyArray m k = (case m k of None \<Rightarrow> ([], m(k \<mapsto> [])) | Some q \<Rightarrow> (q, m))"

subsection \<open>Updating, creating, queueing and dequeueing an item\<close>

definition get_zIndex :: "'i LayoutSource \<Rightarrow> real" where
  "get_zIndex s = (if truthy (p_zIndex (props s)) then the (p_zIndex (props s)) else own_zIndex s)"

definition getReuseID :: "'i LayoutSource \<Rightarrow> 'i \<Rightarrow> string" where
  "getReuseID s i =
     (case p_getReuseID (props s) of
        Some f \<Rightarrow> f i
      | None \<Rightarrow> (case p_reuseID (props s) of Some r \<Rightarrow> r | None \<Rightarrow> ls_id s))"

text \<open>
  \<open>updateItem(item, index, {isNew})\<close>. The item is an object that the source mutates;
  the model returns the mutated item together with the state, in which the item is
  stored under the index. \<open>updatedItem\<close> is the item after the writes of
  \<open>updateItem\<close>, given the layout that \<open>getItemContentLayout(index)\<close> returned:
  the new content layout spread over the old one, the default z-index when the item has
  none, the animated mirror written on each axis whose number changed, and the opacity.
\<close>

definition updatedItem :: "IItemLayout \<Rightarrow> 'i IItem \<Rightarrow> bool \<Rightarrow> 'i LayoutSource \<Rightarrow> 'i IItem" where
  "updatedItem l item isNew s =
     (let previous = contentLayout item;
          off = (case il_offset l of None \<Rightarrow> l_offset previous | Some v \<Rightarrow> v);
          sz = (case il_size l of None \<Rightarrow> l_size previous | Some v \<Rightarrow> v);
          an = animContentLayout item;
          an1 =
            \<lparr>l_offset =
               \<lparr>px = (if px off \<noteq> px (l_offset previous) then px off else px (l_offset an)),
                py = (if py off \<noteq> py (l_offset previous) then py off else py (l_offset an))\<rparr>,
             l_size =
               \<lparr>px = (if px sz \<noteq> px (l_size previous) then px sz else px (l_size an)),
                py = (if py sz \<noteq> py (l_size previous) then py sz else py (l_size an))\<rparr>\<rparr>;
          showNow =
            (\<not> isNew \<or> (case showDuration (props s) of None \<Rightarrow> 0 | Some d \<Rightarrow> d) \<le> 0)
      in item\<lparr>contentLayout := \<lparr>l_offset = off, l_size = sz\<rparr>,
              zIndex := (if zIndex item = 0 then get_zIndex s else zIndex item),
              animContentLayout := an1,
              opacity := (if showNow then 1 else opacity item)\<rparr>)"

definition updateItem ::
  "'i Subclass \<Rightarrow> 'i IItem \<Rightarrow> 'i \<Rightarrow> bool \<Rightarrow> 'i LayoutSource
     \<Rightarrow> ('i, 'i IItem \<times> 'i LayoutSource) ls_result" where
  "updateItem sc item i isNew s =
     (case getItemContentLayout sc i of
        Inl e \<Rightarrow> Inl (e, s)
      | Inr l \<Rightarrow>
          (let item1 = updatedItem l item isNew s;
               s1 = (if willShowItem (props s) then effect (WillShowItem item1) s else s)
           in Inr (item1, setVisibleItem i (Some item1) s1)))"

definition createItem ::
  "'i Subclass \<Rightarrow> 'i \<Rightarrow> 'i LayoutSource \<Rightarrow> ('i, 'i IItem \<times> 'i LayoutSource) ls_result" where
  "createItem sc i s =
     updateItem sc
       \<lparr>index = i, reuseID = getReuseID s i, zIndex = get_zIndex s,
        contentLayout = \<lparr>l_offset = zeroPoint, l_size = zeroPoint\<rparr>,
        animContentLayout = \<lparr>l_offset = zeroPoint, l_size = zeroPoint\<rparr>,
        opacity = 0, renderNonce = 0\<rparr>
       i True s"

text \<open>\<open>_dequeueItem(reuseID)\<close>: pop the last record of the queue of that key.\<close>

definition private_dequeueItem ::
  "string \<Rightarrow> 'i LayoutSource \<Rightarrow> 'i IItem option \<times> 'i LayoutSource" where
  "private_dequeueItem r s =
     (let (queue, qs) = getLazyArray (itemQueues s) r in
      if queue = [] then (None, s\<lparr>itemQueues := qs\<rparr>)
      else
        (let item = last queue;
             s1 = s\<lparr>itemQueues := qs(r \<mapsto> butlast queue)\<rparr>
         in (Some item, if reuseID item \<noteq> r then effect DequeueMismatchLogged s1 else s1)))"

definition queueItem :: "'i \<Rightarrow> 'i LayoutSource \<Rightarrow> bool \<times> 'i LayoutSource" where
  "queueItem i s =
     (case getVisibleItem s i of
        None \<Rightarrow> (False, s)
      | Some item \<Rightarrow>
          (let s1 = (if willHideItem (props s) then effect (WillHideItem item) s else s);
               s2 = setVisibleItem i None s1;
               item1 = item\<lparr>opacity := 0\<rparr>
           in if reuseID item1 \<noteq> [] then
                (let (queue, qs) = getLazyArray (itemQueues s2) (reuseID item1)
                 in (True, s2\<lparr>itemQueues := qs(reuseID item1 \<mapsto> queue @ [item1])\<rparr>))
              else (True, s2)))"

text \<open>
  \<open>dequeueItem(index)\<close>. After \<open>updateItem\<close> the record is the object stored in the
  visible map, so the write to its \<open>renderNonce\<close> is a write to the stored record too.
\<close>

definition dequeueItem ::
  "'i Subclass \<Rightarrow> 'i \<Rightarrow> 'i LayoutSource
     \<Rightarrow> ('i, 'i IItem option \<times> 'i LayoutSource) ls_result" where
  "dequeueItem sc i s =
     (let (popped, s1) = private_dequeueItem (getReuseID s i) s in
      case popped of
        None \<Rightarrow> Inr (None, s1)
      | Some item \<Rightarrow>
          (let previous = (index item, contentLayout item) in
           case updateItem sc item i False s1 of
             Inl e \<Rightarrow> Inl e
           | Inr (item1, s2) \<Rightarrow>
               if shouldRenderItem (props s2) item1 previous then
                 (let item2 = item1\<lparr>renderNonce := now sc\<rparr>
                  in Inr (Some item2, s2\<lparr>visibleItems := (visibleItems s2)(i \<mapsto> item2)\<rparr>))
               else Inr (Some item1, s2)))"

definition clearQueue :: "'i LayoutSource \<Rightarrow> 'i LayoutSource" where
  "clearQueue s = s\<lparr>itemQueues := Map.empty\<rparr>"

subsection \<open>\<open>updateItems\<close>\<close>

definition ls_beginUpdate :: "'i LayoutSource \<Rightarrow> ('i, 'i LayoutSource) ls_result" where
  "ls_beginUpdate s =
     (if updating s then Inl (AlreadyUpdating, s\<lparr>updating := False\<rparr>)
      else Inr (s\<lparr>updating := True\<rparr>))"

definition ls_endUpdate :: "'i LayoutSource \<Rightarrow> 'i LayoutSource" where
  "ls_endUpdate s = s\<lparr>updating := False\<rparr>"

definition commitUpdate :: "'i LayoutSource \<Rightarrow> 'i LayoutSource" where
  "commitUpdate s = ls_endUpdate s"

definition cancelUpdate :: "'i LayoutSource \<Rightarrow> 'i LayoutSource" where
  "cancelUpdate s = ls_endUpdate s"

record UpdateOptions =
  opt_queue :: bool
  opt_dequeue :: bool
  opt_create :: bool
  opt_update :: bool

definition defaultOptions :: UpdateOptions where
  "defaultOptions =
     \<lparr>opt_queue = True, opt_dequeue = True, opt_create = False, opt_update = False\<rparr>"

text \<open>
  The loop over \<open>itemUpdates()\<close>. \<open>processItemUpdate\<close> is its body for one
  \<open>{add, remove}\<close>; it ends in an exception (\<open>Inl\<close>), in the early \<open>return\<close>
  after the update was cancelled (\<open>Inr (True, _)\<close>), or at the end of the body
  (\<open>Inr (False, _)\<close>). \<open>processItemUpdates\<close> is the loop over the steps of the
  generator, with the same three endings.
\<close>

definition processItemUpdate ::
  "UpdateOptions \<Rightarrow> 'i Subclass \<Rightarrow> 'i IItemUpdate \<Rightarrow> 'i LayoutSource
     \<Rightarrow> ('i, bool \<times> 'i LayoutSource) ls_result" where
  "processItemUpdate opts sc u s =
     (if opt_queue opts \<and> remove u \<noteq> None then
        Inr (False, snd (queueItem (the (remove u)) s))
      else
        (case add u of
           None \<Rightarrow> Inr (False, s)
         | Some a \<Rightarrow>
             (case (if opt_dequeue opts then dequeueItem sc a s else Inr (None, s)) of
                Inl e \<Rightarrow> Inl e
              | Inr (Some item, s1) \<Rightarrow> Inr (False, s1)
              | Inr (None, s1) \<Rightarrow>
                  if opt_create opts then
                    (case createItem sc a s1 of
                       Inl e \<Rightarrow> Inl e
                     | Inr (item, s2) \<Rightarrow> Inr (False, s2))
                  else Inr (True, setNeedsRender (cancelUpdate s1)))))"

fun processItemUpdates ::
  "UpdateOptions \<Rightarrow> 'i Subclass \<Rightarrow> 'i IItemUpdate gen_step list \<Rightarrow> 'i LayoutSource
     \<Rightarrow> ('i, bool \<times> 'i LayoutSource) ls_result" where
  "processItemUpdates opts sc [] s = Inr (False, s)"
| "processItemUpdates opts sc (GenThrow # rest) s = Inl (SubclassError, s)"
| "processItemUpdates opts sc (Yield u # rest) s =
     (case processItemUpdate opts sc u s of
        Inl e \<Rightarrow> Inl e
      | Inr (returned, s1) \<Rightarrow>
          if returned then Inr (True, s1) else processItemUpdates opts sc rest s1)"

text \<open>The pass over \<open>visibleIndexes()\<close> that \<open>update: true\<close> asks for.\<close>

fun updateVisibleItems ::
  "'i Subclass \<Rightarrow> 'i gen_step list \<Rightarrow> 'i LayoutSource \<Rightarrow> ('i, 'i LayoutSource) ls_result" where
  "updateVisibleItems sc [] s = Inr s"
| "updateVisibleItems sc (GenThrow # rest) s = Inl (SubclassError, s)"
| "updateVisibleItems sc (Yield i # rest) s =
     (case getVisibleItem s i of
        None \<Rightarrow> updateVisibleItems sc rest s
      | Some item \<Rightarrow>
          (case updateItem sc item i False s of
             Inl e \<Rightarrow> Inl e
           | Inr (item1, s1) \<Rightarrow> updateVisibleItems sc rest s1))"

text \<open>
  The body of the \<open>try\<close> block: the loop, the optional pass, the commit. The flag of
  the result says that the body left by the early \<open>return\<close>.
\<close>

definition updateItems_body ::
  "UpdateOptions \<Rightarrow> 'i Subclass \<Rightarrow> 'i LayoutSource \<Rightarrow> ('i, bool \<times> 'i LayoutSource) ls_result" where
  "updateItems_body opts sc s =
     (case processItemUpdates opts sc (itemUpdates sc) s of
        Inl e \<Rightarrow> Inl e
      | Inr (True, s1) \<Rightarrow> Inr (True, s1)
      | Inr (False, s1) \<Rightarrow>
          (case (if opt_update opts then updateVisibleItems sc (visibleIndexes sc) s1
                 else Inr s1) of
             Inl e \<Rightarrow> Inl e
           | Inr s2 \<Rightarrow> Inr (False, commitUpdate s2)))"

text \<open>
  \<open>updateItems(view, options)\<close>: \<open>beginUpdate\<close> is outside the \<open>try\<close> and its
  exception leaves the function; the handler of the \<open>try\<close> logs and cancels.
\<close>

definition updateItems ::
  "UpdateOptions \<Rightarrow> 'i Subclass \<Rightarrow> 'i LayoutSource \<Rightarrow> ('i, 'i LayoutSource) ls_result" where
  "updateItems opts sc s =
     (case ls_beginUpdate s of
        Inl e \<Rightarrow> Inl e
      | Inr s1 \<Rightarrow>
          (case updateItems_body opts sc s1 of
             Inl (e, s2) \<Rightarrow> Inr (cancelUpdate (effect UpdateErrorLogged s2))
           | Inr (returned, s2) \<Rightarrow> Inr s2))"

definition ls_setNeedsUpdate ::
  "bool \<Rightarrow> 'i Subclass \<Rightarrow> 'i LayoutSource \<Rightarrow> ('i, 'i LayoutSource) ls_result" where
  "ls_setNeedsUpdate force sc s =
     (if \<not> force \<and> needsRender s then Inr s else updateItems defaultOptions sc s)"

subsection \<open>Pools, traces and an example\<close>

text \<open>
  The state a call ended in, thrown or returned; the records pooled under a key, where a
  key without an array has none; the discipline of the pools, that every record lies
  under its own \<open>reuseID\<close>, which is not empty; and whether, in a trace of effects, no
  item is hidden after one was shown.
\<close>

definition ls_state_of :: "('i, 'i LayoutSource) ls_result \<Rightarrow> 'i LayoutSource" where
  "ls_state_of r = (case r of Inl (e, s) \<Rightarrow> s | Inr s \<Rightarrow> s)"

definition pool :: "'i LayoutSource \<Rightarrow> string \<Rightarrow> 'i IItem list" where
  "pool s r = (case itemQueues s r of None \<Rightarrow> [] | Some q \<Rightarrow> q)"

definition pool_ok :: "'i LayoutSource \<Rightarrow> bool" where
  "pool_ok s \<longleftrightarrow> (\<forall>r. list_all (\<lambda>item. reuseID item = r \<and> r \<noteq> []) (pool s r))"

fun is_show :: "'i effect \<Rightarrow> bool" where
  "is_show (WillShowItem item) = True"
| "is_show e = False"



text \<open>
  The state a run of the loop ended in; the number of times \<open>setNeedsRender()\<close> was
  called; and the relation between a state and a later one that says that no render was
  requested in between, that the update is as much in progress as it was, and that the
  discipline of the pools was kept.
\<close>

definition loop_state :: "('i, bool \<times> 'i LayoutSource) ls_result \<Rightarrow> 'i LayoutSource" where
  "loop_state r = (case r of Inl (e, s) \<Rightarrow> s | Inr (returned, s) \<Rightarrow> s)"

definition renders :: "'i LayoutSource \<Rightarrow> nat" where
  "renders s = length (filter (\<lambda>e. e = SetNeedsRender) (effects s))"

definition no_render :: "'i LayoutSource \<Rightarrow> 'i LayoutSource \<Rightarrow> bool" where
  "no_render s t \<longleftrightarrow>
     needsRender t = needsRender s \<and> updating t = updating s \<and> renders t = renders s
     \<and> (pool_ok s \<longrightarrow> pool_ok t)"

text \<open>
  An example: a row of items 50 wide, indexed by natural numbers, all with the reuse
  identifier \<open>A\<close>. Item 1 is visible and the record that showed item 7 is pooled.
  \<open>gridSubclass\<close> lays every index out; \<open>brokenSubclass\<close> throws at index 2.
\<close>

definition gridLayout :: "nat \<Rightarrow> IItemLayout" where
  "gridLayout i = \<lparr>il_offset = Some \<lparr>px = 50 * real i, py = 0\<rparr>,
                   il_size = Some \<lparr>px = 50, py = 50\<rparr>\<rparr>"

definition gridItem :: "nat \<Rightarrow> nat IItem" where
  "gridItem i =
     \<lparr>index = i, reuseID = ''A'', zIndex = 1,
      contentLayout = \<lparr>l_offset = \<lparr>px = 50 * real i, py = 0\<rparr>, l_size = \<lparr>px = 50, py = 50\<rparr>\<rparr>,
      animContentLayout = \<lparr>l_offset = \<lparr>px = 50 * real i, py = 0\<rparr>, l_size = \<lparr>px = 50, py = 50\<rparr>\<rparr>,
      opacity = 1, renderNonce = 0\<rparr>"

definition gridProps :: "nat LayoutSourceProps" where
  "gridProps =
     \<lparr>p_zIndex = None, p_reuseID = Some ''A'', p_getReuseID = None,
      shouldRenderItem = (\<lambda>item previous. True),
      willShowItem = True, willHideItem = True, showDuration = Some 150\<rparr>"

definition gridSource :: "nat LayoutSource" where
  "gridSource =
     \<lparr>props = gridProps, ls_id = ''1'', own_zIndex = 1,
      itemQueues = [''A'' \<mapsto> [(gridItem 7)\<lparr>opacity := 0\<rparr>]], updating = False,
      visibleItems = [1 \<mapsto> gridItem 1], needsRender = False, effects = []\<rparr>"

definition gridSubclass :: "nat IItemUpdate gen_step list \<Rightarrow> nat Subclass" where
  "gridSubclass us =
     \<lparr>getItemContentLayout = (\<lambda>i. Inr (gridLayout i)), itemUpdates = us,
      visibleIndexes = [], now = 1000\<rparr>"

definition brokenSubclass :: "nat IItemUpdate gen_step list \<Rightarrow> nat Subclass" where
  "brokenSubclass us =
     \<lparr>getItemContentLayout = (\<lambda>i. if i = 2 then Inl SubclassError else Inr (gridLayout i)),
      itemUpdates = us, visibleIndexes = [], now = 1000\<rparr>"

definition addThenRemove :: "nat IItemUpdate gen_step list" where
  "addThenRemove =
     [Yield \<lparr>add = Some 2, remove = None\<rparr>, Yield \<lparr>add = None, remove = Some 1\<rparr>]"

definition removeThenAdd :: "nat IItemUpdate gen_step list" where
  "removeThenAdd =
     [Yield \<lparr>add = None, remove = Some 1\<rparr>, Yield \<lparr>add = Some 2, remove = None\<rparr>]"

definition removeThenThreeAdds :: "nat IItemUpdate gen_step list" where
  "removeThenThreeAdds =
     [Yield \<lparr>add = None, remove = Some 1\<rparr>, Yield \<lparr>add = Some 2, remove = None\<rparr>,
      Yield \<lparr>add = Some 3, remove = None\<rparr>, Yield \<lparr>add = Some 4, remove = None\<rparr>]"

section \<open>Properties of the coordinator\<close>

subsection \<open>Coordinate conversions\<close>

text \<open>
  Claim C10. The conversions from view to content coordinates do not divide by a zero
  scale: whenever \<open>scale.x\<close> or \<open>scale.y\<close> is \<open>0\<close>, \<open>getLocation\<close> and
  \<open>unscaleVector\<close> return the zero point for every point.
\<close>

theorem zero_scale_gives_zeroPoint:
  assumes "px (scale s) = 0 \<or> py (scale s) = 0"
  shows "getLocation s point = zeroPoint \<and> unscaleVector s point = zeroPoint"
  using assms by (auto simp add: getLocation_def unscaleVector_def)

theorem zero_scale_gives_zeroPoint_witness:
  "getLocation (idleLayout\<lparr>scale := \<lparr>px = 0, py = 2\<rparr>\<rparr>) \<lparr>px = 5, py = 7\<rparr> = zeroPoint
   \<and> unscaleVector (idleLayout\<lparr>scale := \<lparr>px = 0, py = 2\<rparr>\<rparr>) \<lparr>px = 5, py = 7\<rparr> = zeroPoint"
  using zero_scale_gives_zeroPoint [of "idleLayout\<lparr>scale := \<lparr>px = 0, py = 2\<rparr>\<rparr>" "\<lparr>px = 5, py = 7\<rparr>"]
  by simp

text \<open>
  Claim C1, as stated: converting a content point with \<open>getContainerLocation\<close> and the
  result back with \<open>getLocation\<close> gives the point again, for a scale without a zero
  component. It fails: with unit scale and everything else zero, the point \<open>(1, 1)\<close>
  has container location \<open>(1, 1)\<close>, and \<open>getLocation\<close> maps that to \<open>(-1, -1)\<close>.
\<close>

theorem container_roundtrip_counterexample:
  "getLocation idleLayout (getContainerLocation idleLayout \<lparr>px = 1, py = 1\<rparr> None)
     = \<lparr>px = - 1, py = - 1\<rparr>
   \<and> getLocation idleLayout (getContainerLocation idleLayout \<lparr>px = 1, py = 1\<rparr> None)
     \<noteq> \<lparr>px = 1, py = 1\<rparr>"
  by (simp add: getLocation_def getContainerLocation_def idleLayout_def
      containerOriginOffset_def zeroPoint_def)

text \<open>
  Claim C1, amended. \<open>getLocation\<close> takes a point in view coordinates, which run
  against the container's: the view point of a container location \<open>c\<close> is
  \<open>viewOffset - c\<close>. For a scale without a zero component, converting a content
  point \<open>p\<close> with \<open>getContainerLocation\<close> and the view point of the result back with
  \<open>getLocation\<close> gives \<open>p\<close>; converting the result itself back gives
  \<open>- p - 2 * locationOffsetBase - (viewOffset - 2 * containerOriginOffset) / scale\<close>
  on each axis.
\<close>

theorem container_roundtrip_through_view_point:
  assumes "px (scale s) \<noteq> 0" and "py (scale s) \<noteq> 0"
  shows "getLocation s
           \<lparr>px = px (viewOffset s) - px (getContainerLocation s p None),
            py = py (viewOffset s) - py (getContainerLocation s p None)\<rparr> = p
       \<and> getLocation s (getContainerLocation s p None) =
           \<lparr>px = - px p - 2 * px (locationOffsetBase s)
                  - (px (viewOffset s) - 2 * px (containerOriginOffset s)) / px (scale s),
            py = - py p - 2 * py (locationOffsetBase s)
                  - (py (viewOffset s) - 2 * py (containerOriginOffset s)) / py (scale s)\<rparr>"
  using assms
  by (simp add: getLocation_def getContainerLocation_def Let_def field_simps)

theorem container_roundtrip_through_view_point_witness:
  "getLocation (idleLayout\<lparr>scale := \<lparr>px = 2, py = - 1\<rparr>, viewOffset := \<lparr>px = 10, py = 4\<rparr>\<rparr>)
     \<lparr>px = 10 - px (getContainerLocation
                       (idleLayout\<lparr>scale := \<lparr>px = 2, py = - 1\<rparr>, viewOffset := \<lparr>px = 10, py = 4\<rparr>\<rparr>)
                       \<lparr>px = 3, py = 5\<rparr> None),
      py = 4 - py (getContainerLocation
                      (idleLayout\<lparr>scale := \<lparr>px = 2, py = - 1\<rparr>, viewOffset := \<lparr>px = 10, py = 4\<rparr>\<rparr>)
                      \<lparr>px = 3, py = 5\<rparr> None)\<rparr>
   = \<lparr>px = 3, py = 5\<rparr>"
  using container_roundtrip_through_view_point
    [of "idleLayout\<lparr>scale := \<lparr>px = 2, py = - 1\<rparr>, viewOffset := \<lparr>px = 10, py = 4\<rparr>\<rparr>"
        "\<lparr>px = 3, py = 5\<rparr>"]
  by simp

subsection \<open>Update batching\<close>

lemma bindE_Inr [simp]: "bindE (Inr v) f = f v"
  by (simp add: bindE_def)

lemma bindE_assoc: "bindE (bindE m f) g = bindE m (\<lambda>v. bindE (f v) g)"
  by (simp add: bindE_def split: sum.splits)

lemma bindE_if: "bindE (if c then a else b) g = (if c then bindE a g else bindE b g)"
  by simp

lemma state_of_Inr [simp]: "state_of (Inr v) = v"
  by (simp add: state_of_def)

lemma state_of_Inl [simp]: "state_of (Inl (e, s)) = s"
  by (simp add: state_of_def)

lemma beginUpdates_depth: "beginUpdates n s = s\<lparr>updateDepth := updateDepth s + int n\<rparr>"
  by (induction n arbitrary: s) (simp_all add: beginUpdate_def)

lemma endUpdates_inner:
  "int k < updateDepth s \<Longrightarrow> endUpdates k s = Inr (s\<lparr>updateDepth := updateDepth s - int k\<rparr>)"
  by (induction k arbitrary: s) (simp_all add: endUpdate_def Let_def)

lemma endUpdates_last: "endUpdates (Suc m) t = bindE (endUpdates m t) endUpdate"
proof (induction m arbitrary: t)
  case 0
  show ?case by (simp add: bindE_def split: sum.splits)
next
  case (Suc m)
  have step: "endUpdates (Suc m) = (\<lambda>v. bindE (endUpdates m v) endUpdate)"
    by (rule ext) (rule Suc.IH)
  have "endUpdates (Suc (Suc m)) t = bindE (endUpdate t) (endUpdates (Suc m))"
    by (rule endUpdates.simps(2))
  also have "\<dots> = bindE (endUpdate t) (\<lambda>v. bindE (endUpdates m v) endUpdate)"
    by (simp only: step)
  also have "\<dots> = bindE (bindE (endUpdate t) (endUpdates m)) endUpdate"
    by (simp only: bindE_assoc)
  also have "\<dots> = bindE (endUpdates (Suc m) t) endUpdate"
    by (simp only: endUpdates.simps(2))
  finally show ?case .
qed

lemma updateRuns_update: "updateRuns (update s) = updateRuns s + 1"
  by (simp add: updateRuns_def update_def Let_def emit_def cancelScheduledUpdate_def)

text \<open>
  Claim C2. From depth \<open>0\<close> and for every \<open>N \<ge> 1\<close>, \<open>N\<close> calls of \<open>beginUpdate\<close>
  followed by \<open>N\<close> calls of \<open>endUpdate\<close> run \<open>update()\<close> exactly once, in the last
  \<open>endUpdate\<close>: the state after all of them is the state after one \<open>update()\<close>,
  which counts one more run, and after fewer than \<open>N\<close> calls of \<open>endUpdate\<close> only
  the depth has changed. No code sets the update timer, whose absence is assumed.
\<close>

theorem nested_updates_run_update_once:
  assumes "updateDepth s = 0" and "updateTimer s = 0" and "1 \<le> N"
  shows "endUpdates N (beginUpdates N s) = Inr (update s)
     \<and> updateRuns (update s) = updateRuns s + 1
     \<and> (\<forall>k<N. endUpdates k (beginUpdates N s) = Inr (s\<lparr>updateDepth := int N - int k\<rparr>)
               \<and> updateRuns (s\<lparr>updateDepth := int N - int k\<rparr>) = updateRuns s)"
proof -
  obtain M where N: "N = Suc M" using assms(3) by (cases N) auto
  have inner: "endUpdates k (beginUpdates N s) = Inr (s\<lparr>updateDepth := int N - int k\<rparr>)"
    if "k < N" for k
    using that assms(1) by (simp add: beginUpdates_depth endUpdates_inner)
  have "endUpdates N (beginUpdates N s) = bindE (endUpdates M (beginUpdates N s)) endUpdate"
    unfolding N by (rule endUpdates_last)
  also have "\<dots> = endUpdate (s\<lparr>updateDepth := 1\<rparr>)"
    using inner[of M] by (simp add: N)
  also have "\<dots> = Inr (update (s\<lparr>updateDepth := 0\<rparr>))"
    using assms(2) by (simp add: endUpdate_def scheduleUpdate_def Let_def)
  also have "s\<lparr>updateDepth := 0\<rparr> = s"
    using assms(1) by (cases s) simp
  finally have last: "endUpdates N (beginUpdates N s) = Inr (update s)" .
  have unchanged: "updateRuns (s\<lparr>updateDepth := d\<rparr>) = updateRuns s" for d
    by (simp add: updateRuns_def)
  show ?thesis
    using last inner by (simp add: updateRuns_update unchanged)
qed

theorem nested_updates_run_update_once_witness:
  "endUpdates 3 (beginUpdates 3 idleLayout) = Inr (update idleLayout)
   \<and> updateRuns (update idleLayout) = 1
   \<and> endUpdates 2 (beginUpdates 3 idleLayout) = Inr (idleLayout\<lparr>updateDepth := 1\<rparr>)
   \<and> updateRuns (idleLayout\<lparr>updateDepth := 1\<rparr>) = 0"
proof -
  have h: "updateDepth idleLayout = 0" "updateTimer idleLayout = 0" "(1::nat) \<le> 3"
    "updateRuns idleLayout = 0"
    by (simp_all add: idleLayout_def updateRuns_def)
  note once = nested_updates_run_update_once [OF h(1,2,3)]
  from once have last: "endUpdates 3 (beginUpdates 3 idleLayout) = Inr (update idleLayout)"
    and runs: "updateRuns (update idleLayout) = updateRuns idleLayout + 1"
    by simp_all
  from once have "(2::nat) < 3 \<longrightarrow>
      endUpdates 2 (beginUpdates 3 idleLayout) = Inr (idleLayout\<lparr>updateDepth := int 3 - int 2\<rparr>)
      \<and> updateRuns (idleLayout\<lparr>updateDepth := int 3 - int 2\<rparr>) = updateRuns idleLayout"
    by blast
  then show ?thesis using last runs h(4) by simp
qed

subsection \<open>What an operation leaves alone\<close>

lemma latches_kept_refl [simp]: "latches_kept s s"
  by (simp add: latches_kept_def)

lemma latches_kept_trans: "latches_kept s t \<Longrightarrow> latches_kept t u \<Longrightarrow> latches_kept s u"
  by (simp add: latches_kept_def)

lemma gesture_kept_refl [simp]: "gesture_kept s s"
  by (simp add: gesture_kept_def)

lemma gesture_kept_trans: "gesture_kept s t \<Longrightarrow> gesture_kept t u \<Longrightarrow> gesture_kept s u"
  using latches_kept_trans by (auto simp add: gesture_kept_def)

lemma batching_only_refl [simp]: "batching_only s s"
  by (simp add: batching_only_def)

lemma batching_only_trans: "batching_only s t \<Longrightarrow> batching_only t u \<Longrightarrow> batching_only s u"
  using gesture_kept_trans by (auto simp add: batching_only_def)

lemma batching_gesture: "batching_only s t \<Longrightarrow> gesture_kept s t"
  by (simp add: batching_only_def)

lemma gesture_latches: "gesture_kept s t \<Longrightarrow> latches_kept s t"
  by (simp add: gesture_kept_def)

lemma batching_only_step:
  "batching_only s t \<Longrightarrow> batching_only s (update t)"
  "batching_only s t \<Longrightarrow> batching_only s (beginUpdate t)"
  "batching_only s t \<Longrightarrow> batching_only s (startInteraction t)"
  "batching_only s t \<Longrightarrow> batching_only s (endInteration t)"
  "batching_only s t \<Longrightarrow> batching_only s (t\<lparr>viewOffset := p\<rparr>)"
  "batching_only s t \<Longrightarrow> batching_only s (t\<lparr>viewOffset_anim := p\<rparr>)"
  "batching_only s t \<Longrightarrow> batching_only s (t\<lparr>locationOffsetBase := p\<rparr>)"
  "batching_only s t \<Longrightarrow> batching_only s (t\<lparr>panTargetValue := p\<rparr>)"
  "batching_only s t \<Longrightarrow> batching_only s (t\<lparr>descelerationAnimation := a\<rparr>)"
  "batching_only s t \<Longrightarrow> batching_only s (t\<lparr>containerSize := p\<rparr>)"
  "batching_only s t \<Longrightarrow> batching_only s (t\<lparr>scale := p\<rparr>)"
  by (auto simp add: batching_only_def gesture_kept_def latches_kept_def animationStarts_def
      update_def Let_def cancelScheduledUpdate_def beginUpdate_def startInteraction_def
      endInteration_def emit_def)

lemma batching_only_scheduleUpdate:
  "batching_only s t \<Longrightarrow> batching_only s (scheduleUpdate t)"
  by (simp add: scheduleUpdate_def batching_only_step)

lemma batching_only_depth:
  "batching_only s t \<Longrightarrow> 0 \<le> d \<or> updateDepth s < 0 \<Longrightarrow> batching_only s (t\<lparr>updateDepth := d\<rparr>)"
  by (auto simp add: batching_only_def gesture_kept_def latches_kept_def animationStarts_def)

lemma batching_only_endUpdate:
  assumes "batching_only s t"
  shows "batching_only s (state_of (endUpdate t))"
proof -
  have a: "batching_only s (t\<lparr>updateDepth := 0\<rparr>)"
    using assms by (simp add: batching_only_depth)
  have b: "0 < updateDepth t - 1 \<Longrightarrow> batching_only s (t\<lparr>updateDepth := updateDepth t - 1\<rparr>)"
    using assms by (simp add: batching_only_depth)
  have c: "updateDepth t - 1 = 0 \<Longrightarrow>
      batching_only s (scheduleUpdate (t\<lparr>updateDepth := updateDepth t - 1\<rparr>))"
    using batching_only_scheduleUpdate[OF a] by simp
  show ?thesis
    using a b c by (auto simp add: endUpdate_def Let_def)
qed

lemma batching_only_setNeedsUpdate:
  "batching_only s t \<Longrightarrow> batching_only s (state_of (setNeedsUpdate t))"
  unfolding setNeedsUpdate_def by (intro batching_only_endUpdate batching_only_step)

lemma batching_only_bindE:
  assumes "batching_only s (state_of m)"
    and "\<And>v. batching_only s v \<Longrightarrow> batching_only s (state_of (f v))"
  shows "batching_only s (state_of (bindE m f))"
proof (cases m)
  case (Inl a)
  then show ?thesis using assms(1) by (simp add: bindE_def)
next
  case (Inr v)
  then show ?thesis using assms by simp
qed

lemma batching_only_setValue:
  "batching_only s t \<Longrightarrow> batching_only s (state_of (onViewOffsetChange p t))"
  "batching_only s t \<Longrightarrow> batching_only s (state_of (viewOffset_setValue p t))"
  "batching_only s t \<Longrightarrow> batching_only s (state_of (locationOffsetBase_setValue p t))"
  "batching_only s t \<Longrightarrow> batching_only s (state_of (panTarget_setValue p t))"
  by (simp_all add: onViewOffsetChange_def viewOffset_setValue_def
      locationOffsetBase_setValue_def panTarget_setValue_def
      batching_only_setNeedsUpdate batching_only_step)

lemma batching_only_transfer:
  "batching_only s t \<Longrightarrow> batching_only s (state_of (transferViewOffsetToLocation t))"
  unfolding transferViewOffsetToLocation_def Let_def
  by (intro batching_only_bindE batching_only_setValue batching_only_endUpdate
      batching_only_step)

lemma batching_only_onEndDeceleration:
  "batching_only s t \<Longrightarrow> batching_only s (state_of (onEndDeceleration t))"
  unfolding onEndDeceleration_def
  by (intro batching_only_bindE batching_only_transfer batching_only_setValue)
     (simp_all add: batching_only_step)

lemma gesture_kept_bindE:
  assumes "gesture_kept s (state_of m)"
    and "\<And>v. gesture_kept s v \<Longrightarrow> gesture_kept s (state_of (f v))"
  shows "gesture_kept s (state_of (bindE m f))"
proof (cases m)
  case (Inl a)
  then show ?thesis using assms(1) by (simp add: bindE_def)
next
  case (Inr v)
  then show ?thesis using assms by simp
qed

lemma gesture_kept_step:
  "gesture_kept s t \<Longrightarrow> gesture_kept s (emit e t)"
  "gesture_kept s t \<Longrightarrow> gesture_kept s (t\<lparr>descelerationAnimation := a\<rparr>)"
  "gesture_kept s t \<Longrightarrow> gesture_kept s (startInteraction t)"
  "gesture_kept s t \<Longrightarrow> gesture_kept s (endInteration t)"
  "gesture_kept s t \<Longrightarrow> gesture_kept s (onStartDeceleration t)"
  "gesture_kept s t \<Longrightarrow> gesture_kept s (beginUpdate t)"
  "gesture_kept s t \<Longrightarrow> gesture_kept s (update t)"
  "gesture_kept s t \<Longrightarrow> gesture_kept s (t\<lparr>containerSize := p\<rparr>)"
  "gesture_kept s t \<Longrightarrow> gesture_kept s (t\<lparr>scale := p\<rparr>)"
  "gesture_kept s t \<Longrightarrow> gesture_kept s (t\<lparr>isLongPress := b\<rparr>)"
  "gesture_kept s t \<Longrightarrow> gesture_kept s (t\<lparr>panVelocty := p\<rparr>)"
  by (auto simp add: gesture_kept_def latches_kept_def beginUpdate_def update_def Let_def
      cancelScheduledUpdate_def
      startInteraction_def endInteration_def onStartDeceleration_def emit_def)

lemma gesture_kept_call:
  "gesture_kept s t \<Longrightarrow> gesture_kept s (state_of (transferViewOffsetToLocation t))"
  "gesture_kept s t \<Longrightarrow> gesture_kept s (state_of (locationOffsetBase_setValue p t))"
  "gesture_kept s t \<Longrightarrow> gesture_kept s (state_of (panTarget_setValue p t))"
  "gesture_kept s t \<Longrightarrow> gesture_kept s (state_of (viewOffset_setValue p t))"
  "gesture_kept s t \<Longrightarrow> gesture_kept s (state_of (setNeedsUpdate t))"
  "gesture_kept s t \<Longrightarrow> gesture_kept s (state_of (endUpdate t))"
  "gesture_kept s t \<Longrightarrow> gesture_kept s (state_of (onEndDeceleration t))"
  using gesture_kept_trans
    batching_gesture[OF batching_only_transfer[OF batching_only_refl]]
    batching_gesture[OF batching_only_setValue(3)[OF batching_only_refl]]
    batching_gesture[OF batching_only_setValue(4)[OF batching_only_refl]]
    batching_gesture[OF batching_only_setValue(2)[OF batching_only_refl]]
    batching_gesture[OF batching_only_setNeedsUpdate[OF batching_only_refl]]
    batching_gesture[OF batching_only_endUpdate[OF batching_only_refl]]
    batching_gesture[OF batching_only_onEndDeceleration[OF batching_only_refl]]
  by blast+

lemma gesture_kept_if:
  "(c \<Longrightarrow> gesture_kept s (state_of a)) \<Longrightarrow> (\<not> c \<Longrightarrow> gesture_kept s (state_of b))
    \<Longrightarrow> gesture_kept s (state_of (if c then a else b))"
  "(c \<Longrightarrow> gesture_kept s x) \<Longrightarrow> (\<not> c \<Longrightarrow> gesture_kept s y)
    \<Longrightarrow> gesture_kept s (if c then x else y)"
  by simp_all

lemma gesture_kept_stop:
  assumes "gesture_kept s t"
  shows "gesture_kept s (state_of (stopDescelerationAnimation t))"
proof (cases "descelerationAnimation t")
  case None
  then show ?thesis using assms by (simp add: stopDescelerationAnimation_def)
next
  case (Some q)
  obtain a started withOnEnd where q: "q = (a, started, withOnEnd)" by (cases q) auto
  show ?thesis
  proof (cases started)
    case False
    then show ?thesis
      using Some q assms by (simp add: stopDescelerationAnimation_def gesture_kept_step)
  next
    case True
    have "gesture_kept s (state_of (bindE (onEndDeceleration (emit (AnimationStop a) t))
        (\<lambda>s1. Inr (if withOnEnd then emit (OnEnd False) s1 else s1))))"
      by (intro gesture_kept_bindE gesture_kept_call)
         (simp_all add: gesture_kept_step assms)
    then show ?thesis
      using Some q True by (simp add: stopDescelerationAnimation_def)
  qed
qed

lemma gesture_kept_scroll:
  assumes "gesture_kept s t" and k: "\<And>u. gesture_kept s u \<Longrightarrow> gesture_kept s (k u)"
  shows "gesture_kept s (state_of (bindE (scrollToOffset options t) (\<lambda>(a, s1). Inr (k s1))))"
  unfolding scrollToOffset_def Let_def
  apply (simp only: bindE_if bindE_assoc bindE_Inr prod.case)
  apply (intro gesture_kept_if gesture_kept_bindE gesture_kept_stop gesture_kept_call)
  apply (simp_all add: assms gesture_kept_step gesture_kept_if)
  done

lemma gesture_kept_onEndPan:
  assumes "gesture_kept s (t\<lparr>panStarted := False\<rparr>)"
  shows "gesture_kept s (state_of (onEndPan t))"
proof -
  define s1 where "s1 = t\<lparr>panStarted := False\<rparr>"
  have s1: "gesture_kept s s1" using assms by (simp add: s1_def)
  have z: "gesture_kept s u \<Longrightarrow> gesture_kept s (u\<lparr>panVelocty := zeroPoint\<rparr>)" for u
    by (rule gesture_kept_step)
  have plain: "gesture_kept s (state_of (Inr (s1\<lparr>panVelocty := zeroPoint\<rparr>)))"
    using s1 by (simp add: z)
  have decay: "gesture_kept s (state_of (Inr ((emit (AnimationStart a)
      (onStartDeceleration (s1\<lparr>descelerationAnimation := d\<rparr>)))\<lparr>panVelocty := zeroPoint\<rparr>)))"
    for a d
    using s1 by (simp add: gesture_kept_step)
  have final: "gesture_kept s (state_of (bindE (onEndDeceleration s1)
      (\<lambda>s2. Inr (s2\<lparr>panVelocty := zeroPoint\<rparr>))))"
    by (intro gesture_kept_bindE gesture_kept_call s1) (simp add: z)
  have snap: "gesture_kept s (state_of (bindE (scrollToOffset options s1)
      (\<lambda>(a, s2). Inr (s2\<lparr>panVelocty := zeroPoint\<rparr>))))" for options
    by (rule gesture_kept_scroll[OF s1 z])
  show ?thesis
  proof (cases "panTargetIsDefault s1")
    case False
    then show ?thesis using plain by (simp add: onEndPan_def Let_def s1_def)
  next
    case True
    show ?thesis
    proof (cases "maybeScrollLocation s1")
      case (Some loc)
      then show ?thesis
        using True snap by (simp add: onEndPan_def Let_def s1_def)
    next
      case None
      then show ?thesis
        using True plain decay final by (simp add: onEndPan_def Let_def s1_def)
    qed
  qed
qed

lemma latches_kept_flag:
  "latches_kept t (t\<lparr>panStarted := b\<rparr>)"
  "latches_kept t (t\<lparr>panDefaultPrevented := b\<rparr>)"
  "latches_kept t (emit e t)"
  by (simp_all add: latches_kept_def emit_def)

lemma onEndPan_result:
  "latches_kept t (state_of (onEndPan t))"
  "\<not> panStarted (state_of (onEndPan t))"
  "panDefaultPrevented (state_of (onEndPan t)) = panDefaultPrevented t"
proof -
  have g: "gesture_kept (t\<lparr>panStarted := False\<rparr>) (state_of (onEndPan t))"
    by (rule gesture_kept_onEndPan) simp
  show "latches_kept t (state_of (onEndPan t))"
    using latches_kept_trans[OF latches_kept_flag(1) gesture_latches[OF g]] .
  show "\<not> panStarted (state_of (onEndPan t))"
    "panDefaultPrevented (state_of (onEndPan t)) = panDefaultPrevented t"
    using g by (simp_all add: gesture_kept_def)
qed

lemma onBeginPan_result:
  "latches_kept t (state_of (onBeginPan t))"
  "pan_consistent t \<Longrightarrow> pan_consistent (state_of (onBeginPan t))"
proof -
  define s1 where "s1 = (emit LockScroll t)\<lparr>panStarted := True, panDefaultPrevented := False\<rparr>"
  have l: "latches_kept t s1" by (simp add: s1_def latches_kept_def emit_def)
  have "gesture_kept s1 (state_of (bindE (stopDescelerationAnimation s1) (\<lambda>s2.
      bindE (panTarget_setValue zeroPoint (s2\<lparr>descelerationAnimation := None\<rparr>)) (\<lambda>s3.
      Inr ((emit OnPressIn (startInteraction s3))\<lparr>isLongPress := False\<rparr>)))))"
    by (intro gesture_kept_bindE gesture_kept_stop gesture_kept_call gesture_kept_step)
       (simp_all add: gesture_kept_step)
  then have g: "hasView t \<Longrightarrow> gesture_kept s1 (state_of (onBeginPan t))"
    by (simp add: onBeginPan_def Let_def s1_def)
  show "latches_kept t (state_of (onBeginPan t))"
  proof (cases "hasView t")
    case True
    from latches_kept_trans[OF l gesture_latches[OF g[OF True]]] show ?thesis .
  next
    case False
    then show ?thesis by (simp add: onBeginPan_def)
  qed
  show "pan_consistent (state_of (onBeginPan t))" if "pan_consistent t"
  proof (cases "hasView t")
    case True
    from g[OF True] show ?thesis by (simp add: gesture_kept_def pan_consistent_def s1_def)
  next
    case False
    then show ?thesis using that by (simp add: onBeginPan_def)
  qed
qed

lemma preventDefaultPan_result:
  "latches_kept t (state_of (preventDefaultPan t))"
  "pan_consistent t \<Longrightarrow> pan_consistent (state_of (preventDefaultPan t))"
proof -
  define s1 where "s1 = t\<lparr>panDefaultPrevented := True\<rparr>"
  have l: "latches_kept t s1" by (simp add: s1_def latches_kept_def)
  show "latches_kept t (state_of (preventDefaultPan t))"
    using l latches_kept_trans[OF l onEndPan_result(1)[of s1]]
    by (simp add: preventDefaultPan_def Let_def s1_def)
  show "pan_consistent (state_of (preventDefaultPan t))" if "pan_consistent t"
    using that onEndPan_result(2)[of s1]
    by (simp add: preventDefaultPan_def Let_def s1_def pan_consistent_def)
qed

lemma onPressOut_result:
  "latches_kept t (state_of (onPressOut t))"
  "pan_consistent t \<Longrightarrow> pan_consistent (state_of (onPressOut t))"
proof -
  define s1 where "s1 = emit UnlockScroll t"
  define m where "m = (if panStarted s1 then onEndPan s1 else Inr (endInteration s1))"
  define k where "k = (\<lambda>s2. (let s3 = emit OnPressOut (s2\<lparr>panDefaultPrevented := False\<rparr>);
      s4 = (if \<not> isLongPress s3 then emit OnPress s3 else s3)
      in (Inr (s4\<lparr>isLongPress := False\<rparr>) :: EvergridLayout result)))"
  have unfold: "hasView t \<Longrightarrow> onPressOut t = bindE m k"
    by (simp add: onPressOut_def s1_def m_def k_def Let_def)
  have l1: "latches_kept t s1" by (simp add: s1_def latches_kept_flag)
  have lm: "latches_kept s1 (state_of m)" and pm: "\<not> panStarted (state_of m)"
    using onEndPan_result(1,2)[of s1]
    by (auto simp add: m_def endInteration_def emit_def latches_kept_def)
  have lk: "latches_kept v (state_of (k v))" and pk: "\<not> panDefaultPrevented (state_of (k v))" for v
    by (simp_all add: k_def Let_def latches_kept_def emit_def)
  have lt: "latches_kept t (state_of (bindE m k))"
  proof (cases m)
    case (Inl a)
    then show ?thesis using latches_kept_trans[OF l1 lm] by (simp add: bindE_def)
  next
    case (Inr v)
    then have "latches_kept t v" using latches_kept_trans[OF l1 lm] by simp
    then show ?thesis
      using Inr latches_kept_trans[OF _ lk[of v]] by simp
  qed
  have pt: "pan_consistent (state_of (bindE m k))"
  proof (cases m)
    case (Inl a)
    then show ?thesis using pm by (simp add: bindE_def pan_consistent_def)
  next
    case (Inr v)
    then show ?thesis using pk[of v] by (simp add: pan_consistent_def)
  qed
  show "latches_kept t (state_of (onPressOut t))"
    using lt unfold by (cases "hasView t") (simp_all add: onPressOut_def)
  show "pan_consistent (state_of (onPressOut t))" if "pan_consistent t"
    using pt unfold that by (cases "hasView t") (simp_all add: onPressOut_def)
qed

lemma gesture_kept_run:
  assumes "op \<noteq> BeginPan" and "op \<noteq> PressOut" and "op \<noteq> PreventDefaultPan"
  shows "gesture_kept s (state_of (run op s))"
proof (cases op)
  case (ContainerSizeChanged p)
  then show ?thesis
    by (simp add: onContainerSizeChange_def gesture_kept_call gesture_kept_step)
next
  case (ScaleChanged p)
  then show ?thesis
    by (simp add: onScaleChange_def gesture_kept_call gesture_kept_step)
next
  case (ScrollToOffset options)
  have "gesture_kept s (state_of (bindE (scrollToOffset options s) (\<lambda>(a, s1). Inr ((\<lambda>u. u) s1))))"
    by (rule gesture_kept_scroll) simp_all
  then show ?thesis using ScrollToOffset by simp
qed (use assms in \<open>simp_all add: gesture_kept_call gesture_kept_step gesture_kept_stop\<close>)


lemma run_pan_consistent:
  assumes "pan_consistent s"
  shows "pan_consistent (state_of (run op s))"
proof (cases "op = BeginPan \<or> op = PressOut \<or> op = PreventDefaultPan")
  case True
  then show ?thesis
    using assms onBeginPan_result(2) onPressOut_result(2) preventDefaultPan_result(2) by auto
next
  case False
  then have "gesture_kept s (state_of (run op s))" using gesture_kept_run by simp
  then show ?thesis using assms by (simp add: gesture_kept_def pan_consistent_def)
qed

subsection \<open>The latches of \<open>update()\<close>\<close>



subsection \<open>The end of a pan, and scrolling during a pan\<close>

lemma update_fields [simp]:
  "descelerationAnimation (update s) = descelerationAnimation s"
  "viewOffset (update s) = viewOffset s"
  "panTargetIsDefault (update s) = panTargetIsDefault s"
  "interactionHandle (update s) = interactionHandle s"
  "updateDepth (update s) = updateDepth s"
  by (simp_all add: update_def Let_def emit_def cancelScheduledUpdate_def)

lemma scheduleUpdate_fields [simp]:
  "descelerationAnimation (scheduleUpdate s) = descelerationAnimation s"
  "viewOffset (scheduleUpdate s) = viewOffset s"
  "panTargetIsDefault (scheduleUpdate s) = panTargetIsDefault s"
  "interactionHandle (scheduleUpdate s) = interactionHandle s"
  "updateDepth (scheduleUpdate s) = updateDepth s"
  by (simp_all add: scheduleUpdate_def)










text \<open>
  Claim C8. While a pan is in progress, \<open>scrollToOffset\<close> returns no animation and
  leaves the whole state of the coordinator as it was, whatever the options.
\<close>

theorem scrollToOffset_refuses_while_panning:
  assumes "panStarted s"
  shows "scrollToOffset options s = Inr (None, s)"
  using assms by (simp add: scrollToOffset_def)

theorem scrollToOffset_refuses_while_panning_witness:
  "scrollToOffset
     \<lparr>so_offset = \<lparr>ox = Some 100, oy = None\<rparr>, animated = True, timing = False,
      spring = None, manualStart = False, onEnd = True\<rparr>
     (releasedLayout \<lparr>px = 1, py = 0\<rparr>)
   = Inr (None, releasedLayout \<lparr>px = 1, py = 0\<rparr>)"
proof -
  have "panStarted (releasedLayout \<lparr>px = 1, py = 0\<rparr>)"
    by (simp add: releasedLayout_def)
  then show ?thesis by (rule scrollToOffset_refuses_while_panning)
qed

section \<open>Properties of the layout source\<close>

subsection \<open>One item at a time\<close>

lemma updateItem_Inl: "updateItem sc item i isNew s = Inl (e, t) \<Longrightarrow> t = s"
  by (auto simp add: updateItem_def Let_def split: sum.splits)

lemma updateItem_Inr:
  assumes "updateItem sc item i isNew s = Inr (item1, t)"
  shows "needsRender t = needsRender s" "itemQueues t = itemQueues s" "updating t = updating s"
    "props t = props s" "ls_id t = ls_id s"
    "visibleItems t = (visibleItems s)(i \<mapsto> item1)"
    "index item1 = index item" "reuseID item1 = reuseID item"
proof -
  have keep: "index (updatedItem l item isNew s) = index item"
    "reuseID (updatedItem l item isNew s) = reuseID item" for l
    by (simp_all add: updatedItem_def Let_def)
  from assms show "needsRender t = needsRender s" "itemQueues t = itemQueues s"
    "updating t = updating s" "props t = props s" "ls_id t = ls_id s"
    "visibleItems t = (visibleItems s)(i \<mapsto> item1)"
    "index item1 = index item" "reuseID item1 = reuseID item"
    by (auto simp add: updateItem_def Let_def setVisibleItem_def effect_def keep
        split: sum.splits if_splits)
qed

lemma createItem_Inl: "createItem sc i s = Inl (e, t) \<Longrightarrow> t = s"
  unfolding createItem_def by (rule updateItem_Inl)

lemma createItem_Inr:
  assumes "createItem sc i s = Inr (item1, t)"
  shows "needsRender t = needsRender s" "itemQueues t = itemQueues s" "updating t = updating s"
    "props t = props s" "ls_id t = ls_id s" "visibleItems t = (visibleItems s)(i \<mapsto> item1)"
  using assms unfolding createItem_def by (auto dest: updateItem_Inr)

lemma private_dequeueItem_result:
  assumes "private_dequeueItem r s = (popped, t)"
  shows "popped = (if pool s r = [] then None else Some (last (pool s r)))"
    "pool t = (pool s)(r := butlast (pool s r))"
    "needsRender t = needsRender s" "visibleItems t = visibleItems s" "updating t = updating s"
    "props t = props s" "ls_id t = ls_id s"
  using assms
  by (auto simp add: private_dequeueItem_def getLazyArray_def pool_def Let_def effect_def
      fun_eq_iff split: option.splits if_splits)

lemma queueItem_result:
  assumes "visibleItems s i = Some item"
  shows "fst (queueItem i s)"
    "pool (snd (queueItem i s)) =
       (if reuseID item = [] then pool s
        else (pool s)(reuseID item := pool s (reuseID item) @ [item\<lparr>opacity := 0\<rparr>]))"
    "visibleItems (snd (queueItem i s)) = (visibleItems s)(i := None)"
  using assms
  by (auto simp add: queueItem_def getVisibleItem_def setVisibleItem_def getLazyArray_def
      pool_def Let_def effect_def fun_eq_iff split: option.splits)

lemma queueItem_absent: "visibleItems s i = None \<Longrightarrow> queueItem i s = (False, s)"
  by (simp add: queueItem_def getVisibleItem_def)

lemma queueItem_fields:
  "needsRender (snd (queueItem i s)) = needsRender s"
  "updating (snd (queueItem i s)) = updating s"
  "props (snd (queueItem i s)) = props s"
  "ls_id (snd (queueItem i s)) = ls_id s"
  by (auto simp add: queueItem_def getVisibleItem_def setVisibleItem_def getLazyArray_def
      Let_def effect_def split: option.splits)

lemma pool_ok_queueItem: "pool_ok s \<Longrightarrow> pool_ok (snd (queueItem i s))"
proof (cases "visibleItems s i")
  case None
  then show "pool_ok s \<Longrightarrow> ?thesis" by (simp add: queueItem_absent)
next
  case (Some item)
  show "pool_ok s \<Longrightarrow> ?thesis"
    unfolding pool_ok_def queueItem_result(2)[OF Some]
    by (auto simp add: list_all_iff)
qed

lemma pool_ok_pop:
  assumes "pool_ok s" and "pool t = (pool s)(r := butlast (pool s r))"
  shows "pool_ok t"
  unfolding pool_ok_def
proof
  fix r'
  have "list_all (\<lambda>item. reuseID item = r' \<and> r' \<noteq> []) (pool s r')"
    using assms(1) by (simp add: pool_ok_def)
  then show "list_all (\<lambda>item. reuseID item = r' \<and> r' \<noteq> []) (pool t r')"
    by (auto simp add: assms(2) list_all_iff dest: in_set_butlastD)
qed

lemma pool_ok_same: "pool t = pool s \<Longrightarrow> pool_ok s \<Longrightarrow> pool_ok t"
  by (simp add: pool_ok_def)

lemma pool_itemQueues: "itemQueues t = itemQueues s \<Longrightarrow> pool t = pool s"
  by (simp add: pool_def fun_eq_iff)


lemma dequeueItem_None:
  assumes "dequeueItem sc i s = Inr (None, t)"
  shows "pool s (getReuseID s i) = []" "pool t = pool s"
    "needsRender t = needsRender s" "visibleItems t = visibleItems s" "updating t = updating s"
    "props t = props s" "ls_id t = ls_id s"
proof -
  obtain popped s1 where p: "private_dequeueItem (getReuseID s i) s = (popped, s1)"
    by (cases "private_dequeueItem (getReuseID s i) s")
  from assms p have "popped = None" and "t = s1"
    by (auto simp add: dequeueItem_def Let_def split: option.splits sum.splits if_splits)
  with private_dequeueItem_result[OF p]
  show "pool s (getReuseID s i) = []" "pool t = pool s"
    "needsRender t = needsRender s" "visibleItems t = visibleItems s" "updating t = updating s"
    "props t = props s" "ls_id t = ls_id s"
    by (auto split: if_splits simp add: fun_eq_iff)
qed

lemma dequeueItem_empty:
  assumes "pool s (getReuseID s i) = []"
  shows "\<exists>t. dequeueItem sc i s = Inr (None, t)"
proof -
  obtain popped s1 where p: "private_dequeueItem (getReuseID s i) s = (popped, s1)"
    by (cases "private_dequeueItem (getReuseID s i) s")
  from private_dequeueItem_result(1)[OF p] assms have "popped = None" by simp
  then show ?thesis using p by (simp add: dequeueItem_def)
qed


subsection \<open>What the loops leave alone\<close>

lemma no_render_refl [simp]: "no_render s s"
  by (simp add: no_render_def)

lemma no_render_trans: "no_render s t \<Longrightarrow> no_render t u \<Longrightarrow> no_render s u"
  by (simp add: no_render_def)

lemma renders_effect: "e \<noteq> SetNeedsRender \<Longrightarrow> renders (effect e s) = renders s"
  by (simp add: renders_def effect_def)

lemma no_render_updateItem:
  assumes "updateItem sc item i isNew s = Inr (item1, t)"
  shows "no_render s t"
proof -
  have "renders t = renders s"
    using assms
    by (auto simp add: updateItem_def Let_def setVisibleItem_def renders_def effect_def
        split: sum.splits if_splits)
  moreover have "pool_ok s \<Longrightarrow> pool_ok t"
    using pool_ok_same[OF pool_itemQueues[OF updateItem_Inr(2)[OF assms]]] .
  ultimately show ?thesis
    using updateItem_Inr(1,3)[OF assms] by (simp add: no_render_def)
qed

lemma no_render_createItem: "createItem sc i s = Inr (item1, t) \<Longrightarrow> no_render s t"
  unfolding createItem_def by (rule no_render_updateItem)

lemma no_render_private_dequeueItem:
  assumes "private_dequeueItem r s = (popped, t)"
  shows "no_render s t"
proof -
  have "renders t = renders s"
    using assms
    by (auto simp add: private_dequeueItem_def getLazyArray_def Let_def renders_def effect_def
        split: option.splits if_splits)
  moreover have "pool_ok s \<Longrightarrow> pool_ok t"
    using pool_ok_pop[OF _ private_dequeueItem_result(2)[OF assms]] .
  ultimately show ?thesis
    using private_dequeueItem_result(3,5)[OF assms] by (simp add: no_render_def)
qed

lemma no_render_queueItem: "no_render s (snd (queueItem i s))"
proof -
  have "renders (snd (queueItem i s)) = renders s"
    by (auto simp add: queueItem_def getVisibleItem_def setVisibleItem_def getLazyArray_def
        Let_def renders_def effect_def split: option.splits)
  then show ?thesis
    using pool_ok_queueItem[of s i] by (simp add: no_render_def queueItem_fields)
qed

lemma no_render_dequeueItem:
  "dequeueItem sc i s = Inl (e, t) \<Longrightarrow> no_render s t"
  "dequeueItem sc i s = Inr (found, t) \<Longrightarrow> no_render s t"
proof -
  obtain popped s1 where p: "private_dequeueItem (getReuseID s i) s = (popped, s1)"
    by (cases "private_dequeueItem (getReuseID s i) s")
  note n1 = no_render_private_dequeueItem[OF p]
  show "no_render s t" if "dequeueItem sc i s = Inl (e, t)"
  proof -
    from that p obtain item where "updateItem sc item i False s1 = Inl (e, t)"
      by (auto simp add: dequeueItem_def Let_def split: option.splits sum.splits if_splits)
    then have "t = s1" by (rule updateItem_Inl)
    then show ?thesis using n1 by simp
  qed
  show "no_render s t" if "dequeueItem sc i s = Inr (found, t)"
  proof (cases popped)
    case None
    then have "t = s1" using that p by (simp add: dequeueItem_def)
    then show ?thesis using n1 by simp
  next
    case (Some item0)
    with that p obtain item1 s2 where u: "updateItem sc item0 i False s1 = Inr (item1, s2)"
      and r: "t = s2 \<or> t = s2\<lparr>visibleItems := (visibleItems s2)(i \<mapsto> item1\<lparr>renderNonce := now sc\<rparr>)\<rparr>"
      by (auto simp add: dequeueItem_def Let_def split: option.splits sum.splits if_splits)
    have "no_render s2 t"
      using r by (auto simp add: no_render_def renders_def pool_ok_def pool_def)
    with no_render_trans[OF n1 no_render_updateItem[OF u]] show ?thesis
      by (rule no_render_trans)
  qed
qed

lemma no_render_attempt:
  "(if d then dequeueItem sc a s else Inr (None, s)) = Inl (e, t) \<Longrightarrow> no_render s t"
  "(if d then dequeueItem sc a s else Inr (None, s)) = Inr (found, t) \<Longrightarrow> no_render s t"
  using no_render_dequeueItem[of sc a s] by (auto split: if_splits)

lemma no_render_processItemUpdate:
  "processItemUpdate opts sc u s = Inl (e, t) \<Longrightarrow> no_render s t"
  "processItemUpdate opts sc u s = Inr (False, t) \<Longrightarrow> no_render s t"
proof -
  define att where "att a = (if opt_dequeue opts then dequeueItem sc a s else Inr (None, s))" for a
  have unfold: "processItemUpdate opts sc u s =
      (if opt_queue opts \<and> remove u \<noteq> None then
         Inr (False, snd (queueItem (the (remove u)) s))
       else
         (case add u of
            None \<Rightarrow> Inr (False, s)
          | Some a \<Rightarrow>
              (case att a of
                 Inl e \<Rightarrow> Inl e
               | Inr (Some item, s1) \<Rightarrow> Inr (False, s1)
               | Inr (None, s1) \<Rightarrow>
                   if opt_create opts then
                     (case createItem sc a s1 of
                        Inl e \<Rightarrow> Inl e
                      | Inr (item, s2) \<Rightarrow> Inr (False, s2))
                   else Inr (True, setNeedsRender (cancelUpdate s1)))))"
    unfolding processItemUpdate_def att_def by (rule refl)
  have att: "att a = Inl (e', t') \<Longrightarrow> no_render s t'"
    "att a = Inr (found, t') \<Longrightarrow> no_render s t'" for a e' t' found
    unfolding att_def by (rule no_render_attempt; assumption)+
  show "no_render s t" if h: "processItemUpdate opts sc u s = Inl (e, t)"
  proof -
    from h obtain a where a: "add u = Some a" and q: "\<not> (opt_queue opts \<and> remove u \<noteq> None)"
      unfolding unfold by (auto split: if_splits option.splits)
    show ?thesis
    proof (cases "att a")
      case (Inl x)
      then show ?thesis using h a q att(1)[of a e t] unfolding unfold by auto
    next
      case (Inr r)
      obtain found s1 where r: "r = (found, s1)" by (cases r)
      have n1: "no_render s s1" using att(2) Inr r by simp
      from h a q Inr r have "createItem sc a s1 = Inl (e, t)"
        unfolding unfold by (auto split: option.splits if_splits sum.splits)
      then have "t = s1" by (rule createItem_Inl)
      then show ?thesis using n1 by simp
    qed
  qed
  show "no_render s t" if h: "processItemUpdate opts sc u s = Inr (False, t)"
  proof (cases "opt_queue opts \<and> remove u \<noteq> None")
    case True
    then show ?thesis using h no_render_queueItem unfolding unfold by auto
  next
    case False
    show ?thesis
    proof (cases "add u")
      case None
      then show ?thesis using h False unfolding unfold by auto
    next
      case (Some a)
      show ?thesis
      proof (cases "att a")
        case (Inl x)
        then show ?thesis using h False Some unfolding unfold by auto
      next
        case (Inr r)
        obtain found s1 where r: "r = (found, s1)" by (cases r)
        have n1: "no_render s s1" using att(2) Inr r by simp
        show ?thesis
        proof (cases found)
          case (Some item)
          then show ?thesis using h False \<open>add u = Some a\<close> Inr r n1 unfolding unfold by auto
        next
          case None
          with h False \<open>add u = Some a\<close> Inr r obtain item where "createItem sc a s1 = Inr (item, t)"
            unfolding unfold by (auto split: if_splits sum.splits)
          then have "no_render s1 t" by (rule no_render_createItem)
          with n1 show ?thesis by (rule no_render_trans)
        qed
      qed
    qed
  qed
qed

lemma processItemUpdate_returned:
  assumes "processItemUpdate opts sc u s = Inr (True, t)"
  shows "\<exists>a s1. add u = Some a \<and> \<not> (opt_queue opts \<and> remove u \<noteq> None) \<and> \<not> opt_create opts
     \<and> (s1 = s \<or> dequeueItem sc a s = Inr (None, s1))
     \<and> t = setNeedsRender (cancelUpdate s1)"
  using assms
  by (auto simp add: processItemUpdate_def split: if_splits option.splits sum.splits)

lemma processItemUpdates_append:
  "processItemUpdates opts sc (us @ vs) s =
     (case processItemUpdates opts sc us s of
        Inl e \<Rightarrow> Inl e
      | Inr (returned, t) \<Rightarrow>
          if returned then Inr (True, t) else processItemUpdates opts sc vs t)"
proof (induction us arbitrary: s)
  case Nil
  show ?case by simp
next
  case (Cons x us)
  show ?case
  proof (cases x)
    case GenThrow
    then show ?thesis by simp
  next
    case (Yield u)
    show ?thesis
    proof (cases "processItemUpdate opts sc u s")
      case (Inl e)
      then show ?thesis using Yield by simp
    next
      case (Inr r)
      obtain returned t where "r = (returned, t)" by (cases r)
      then show ?thesis using Yield Inr Cons.IH[of t] by simp
    qed
  qed
qed

lemma no_render_processItemUpdates:
  "processItemUpdates opts sc us s = Inl (e, t) \<Longrightarrow> no_render s t"
  "processItemUpdates opts sc us s = Inr (False, t) \<Longrightarrow> no_render s t"
proof (induction us arbitrary: s)
  case Nil
  { case 1 then show ?case by simp }
  { case 2 then show ?case by simp }
next
  case (Cons x us)
  { case 1
    show ?case
    proof (cases x)
      case GenThrow
      then show ?thesis using 1 by simp
    next
      case (Yield u)
      show ?thesis
      proof (cases "processItemUpdate opts sc u s")
        case (Inl a)
        then show ?thesis using 1 Yield no_render_processItemUpdate(1)[of opts sc u s] by auto
      next
        case (Inr r)
        obtain returned s1 where r: "r = (returned, s1)" by (cases r)
        with 1 Yield Inr have nr: "\<not> returned" and t: "processItemUpdates opts sc us s1 = Inl (e, t)"
          by (auto split: if_splits)
        from no_render_processItemUpdate(2)[of opts sc u s s1] Inr r nr have "no_render s s1"
          by simp
        then show ?thesis using Cons.IH(1)[OF t] by (rule no_render_trans)
      qed
    qed }
  { case 2
    show ?case
    proof (cases x)
      case GenThrow
      then show ?thesis using 2 by simp
    next
      case (Yield u)
      show ?thesis
      proof (cases "processItemUpdate opts sc u s")
        case (Inl a)
        then show ?thesis using 2 Yield by simp
      next
        case (Inr r)
        obtain returned s1 where r: "r = (returned, s1)" by (cases r)
        with 2 Yield Inr have nr: "\<not> returned"
          and t: "processItemUpdates opts sc us s1 = Inr (False, t)"
          by (auto split: if_splits)
        from no_render_processItemUpdate(2)[of opts sc u s s1] Inr r nr have "no_render s s1"
          by simp
        then show ?thesis using Cons.IH(2)[OF t] by (rule no_render_trans)
      qed
    qed }
qed

lemma no_render_updateVisibleItems_state:
  "no_render s (ls_state_of (updateVisibleItems sc is s))"
proof (induction "is" arbitrary: s)
  case Nil
  show ?case by (simp add: ls_state_of_def)
next
  case (Cons x "is")
  show ?case
  proof (cases x)
    case GenThrow
    then show ?thesis by (simp add: ls_state_of_def)
  next
    case (Yield i)
    show ?thesis
    proof (cases "visibleItems s i")
      case None
      then show ?thesis using Yield Cons.IH[of s] by (simp add: getVisibleItem_def)
    next
      case (Some item)
      show ?thesis
      proof (cases "updateItem sc item i False s")
        case (Inl a)
        obtain e' t' where a: "a = (e', t')" by (cases a)
        with Inl have "updateItem sc item i False s = Inl (e', t')" by simp
        then have "t' = s" by (rule updateItem_Inl)
        then show ?thesis
          using Yield Some Inl a by (simp add: getVisibleItem_def ls_state_of_def)
      next
        case (Inr r)
        obtain item1 s1 where r: "r = (item1, s1)" by (cases r)
        from Inr r have "updateItem sc item i False s = Inr (item1, s1)" by simp
        then have n1: "no_render s s1" by (rule no_render_updateItem)
        from n1 Cons.IH[of s1]
        have "no_render s (ls_state_of (updateVisibleItems sc is s1))"
          by (rule no_render_trans)
        then show ?thesis using Yield Some Inr r by (simp add: getVisibleItem_def)
      qed
    qed
  qed
qed


lemmas ls_defs = updateItems_def updateItems_body_def ls_beginUpdate_def defaultOptions_def
  processItemUpdate_def
  dequeueItem_def private_dequeueItem_def getLazyArray_def getReuseID_def updateItem_def
  updatedItem_def
  queueItem_def getVisibleItem_def setVisibleItem_def effect_def cancelUpdate_def commitUpdate_def
  ls_endUpdate_def setNeedsRender_def createItem_def get_zIndex_def truthy_def Let_def

lemmas grid_defs = gridSource_def gridSubclass_def brokenSubclass_def gridProps_def gridItem_def
  gridLayout_def addThenRemove_def removeThenAdd_def

lemma begin_not_updating: "\<not> updating s \<Longrightarrow> ls_beginUpdate s = Inr (s\<lparr>updating := True\<rparr>)"
  by (simp add: ls_beginUpdate_def)

lemma processItemUpdate_addition:
  assumes "add u = Some a" and "\<not> (opt_queue opts \<and> remove u \<noteq> None)"
  shows "processItemUpdate opts sc u s =
      (case (if opt_dequeue opts then dequeueItem sc a s else Inr (None, s)) of
         Inl e \<Rightarrow> Inl e
       | Inr (Some item, s1) \<Rightarrow> Inr (False, s1)
       | Inr (None, s1) \<Rightarrow>
           if opt_create opts then
             (case createItem sc a s1 of Inl e \<Rightarrow> Inl e | Inr (item, s2) \<Rightarrow> Inr (False, s2))
           else Inr (True, setNeedsRender (cancelUpdate s1)))"
proof -
  have "(if opt_queue opts \<and> remove u \<noteq> None then x else y) = y" for x y :: "'b"
    using assms(2) by (rule if_not_P)
  then show ?thesis
    unfolding processItemUpdate_def by (simp only: assms(1) option.case)
qed

lemma dequeueItem_None_effects:
  assumes "dequeueItem sc i s = Inr (None, t)"
  shows "effects t = effects s"
proof -
  obtain popped s1 where p: "private_dequeueItem (getReuseID s i) s = (popped, s1)"
    by (cases "private_dequeueItem (getReuseID s i) s")
  from assms p have "popped = None" and "t = s1"
    by (auto simp add: dequeueItem_def Let_def split: option.splits sum.splits if_splits)
  with p show ?thesis
    by (auto simp add: private_dequeueItem_def getLazyArray_def Let_def
        split: option.splits if_splits)
qed

lemma pool_ok_returned:
  assumes "processItemUpdates opts sc us s = Inr (True, t)" and "pool_ok s"
  shows "pool_ok t"
  using assms
proof (induction us arbitrary: s)
  case Nil
  then show ?case by simp
next
  case (Cons x us)
  show ?case
  proof (cases x)
    case GenThrow
    then show ?thesis using Cons.prems by simp
  next
    case (Yield u)
    show ?thesis
    proof (cases "processItemUpdate opts sc u s")
      case (Inl a)
      then show ?thesis using Cons.prems Yield by simp
    next
      case (Inr r)
      obtain returned s1 where r: "r = (returned, s1)" by (cases r)
      show ?thesis
      proof (cases returned)
        case False
        with Inr r have "processItemUpdate opts sc u s = Inr (False, s1)" by simp
        then have "no_render s s1" by (rule no_render_processItemUpdate)
        then have "pool_ok s1" using Cons.prems(2) by (simp add: no_render_def)
        moreover have "processItemUpdates opts sc us s1 = Inr (True, t)"
          using Cons.prems(1) Yield Inr r False by simp
        ultimately show ?thesis using Cons.IH by blast
      next
        case True
        with Inr r have p: "processItemUpdate opts sc u s = Inr (True, s1)" by simp
        have ts: "t = s1" using Cons.prems(1) Yield Inr r True by simp
        from processItemUpdate_returned[OF p] obtain a s2 where
          s2: "s2 = s \<or> dequeueItem sc a s = Inr (None, s2)"
          and t: "s1 = setNeedsRender (cancelUpdate s2)"
          by blast
        have "pool s2 = pool s" using s2 dequeueItem_None(2) by auto
        then have "pool s1 = pool s"
          by (simp add: t setNeedsRender_def cancelUpdate_def ls_endUpdate_def effect_def
              pool_def fun_eq_iff)
        then show ?thesis using Cons.prems(2) ts pool_ok_same by blast
      qed
    qed
  qed
qed

lemma pool_ok_updateItems:
  assumes "pool_ok s"
  shows "pool_ok (ls_state_of (updateItems opts sc s))"
proof (cases "updating s")
  case True
  have "pool (s\<lparr>updating := False\<rparr>) = pool s" by (simp add: pool_def fun_eq_iff)
  then show ?thesis
    using True assms pool_ok_same
    by (simp add: updateItems_def ls_beginUpdate_def ls_state_of_def)
next
  case False
  define s0 where "s0 = s\<lparr>updating := True\<rparr>"
  have "pool s0 = pool s" by (simp add: s0_def pool_def fun_eq_iff)
  then have ok0: "pool_ok s0" using assms pool_ok_same by blast
  have keep: "pool_ok (cancelUpdate (effect UpdateErrorLogged t))" "pool_ok (commitUpdate t)"
    if "pool_ok t" for t :: "'a LayoutSource"
    using that
    by (simp_all add: pool_ok_def pool_def cancelUpdate_def commitUpdate_def ls_endUpdate_def
        effect_def)
  have body: "pool_ok (loop_state (updateItems_body opts sc s0))"
  proof (cases "processItemUpdates opts sc (itemUpdates sc) s0")
    case (Inl a)
    obtain e t where a: "a = (e, t)" by (cases a)
    with Inl have "processItemUpdates opts sc (itemUpdates sc) s0 = Inl (e, t)" by simp
    then have "no_render s0 t" by (rule no_render_processItemUpdates(1))
    then show ?thesis using ok0 Inl a by (simp add: updateItems_body_def loop_state_def no_render_def)
  next
    case (Inr r)
    obtain returned s1 where r: "r = (returned, s1)" by (cases r)
    show ?thesis
    proof (cases returned)
      case True
      with Inr r have "processItemUpdates opts sc (itemUpdates sc) s0 = Inr (True, s1)" by simp
      then have "pool_ok s1" using ok0 by (rule pool_ok_returned)
      then show ?thesis using Inr r True by (simp add: updateItems_body_def loop_state_def)
    next
      case False
      with Inr r have "processItemUpdates opts sc (itemUpdates sc) s0 = Inr (False, s1)" by simp
      then have "no_render s0 s1" by (rule no_render_processItemUpdates(2))
      then have ok1: "pool_ok s1" using ok0 by (simp add: no_render_def)
      show ?thesis
      proof (cases "opt_update opts")
        case no: False
        then show ?thesis
          using Inr r False keep(2)[OF ok1] by (simp add: updateItems_body_def loop_state_def)
      next
        case yes: True
        have "no_render s1 (ls_state_of (updateVisibleItems sc (visibleIndexes sc) s1))"
          by (rule no_render_updateVisibleItems_state)
        then have "pool_ok (ls_state_of (updateVisibleItems sc (visibleIndexes sc) s1))"
          using ok1 by (simp add: no_render_def)
        then show ?thesis
          using Inr r False yes keep(2)
          by (cases "updateVisibleItems sc (visibleIndexes sc) s1")
             (auto simp add: updateItems_body_def loop_state_def ls_state_of_def)
      qed
    qed
  qed
  show ?thesis
    using False body keep(1)
    by (cases "updateItems_body opts sc s0")
       (auto simp add: updateItems_def ls_beginUpdate_def ls_state_of_def loop_state_def s0_def)
qed

subsection \<open>The order of processing\<close>





subsection \<open>Failures and aborted updates\<close>




text \<open>
  Claim C5. When, during \<open>updateItems\<close>, an addition finds no pooled record to
  dequeue (dequeueing is off, or the pool of its reuse identifier is empty) and creating
  is off, the whole update is aborted: it is cancelled (the source is no longer
  updating), the view is marked as needing a render, and nothing of the rest of the
  sequence is processed: the last effect is the render request, and the visible-index
  map and the pools are those the operations before the addition left.
\<close>

theorem addition_without_record_aborts_update:
  assumes "\<not> updating s"
    and "itemUpdates sc = pre @ Yield u # post"
    and "processItemUpdates opts sc pre (s\<lparr>updating := True\<rparr>) = Inr (False, s1)"
    and "add u = Some a" and "\<not> (opt_queue opts \<and> remove u \<noteq> None)"
    and "\<not> opt_create opts"
    and "\<not> opt_dequeue opts \<or> pool s1 (getReuseID s1 a) = []"
  shows "\<exists>t. updateItems opts sc s = Inr t \<and> \<not> updating t \<and> needsRender t
           \<and> effects t = effects s1 @ [SetNeedsRender]
           \<and> visibleItems t = visibleItems s1 \<and> pool t = pool s1"
proof -
  define att where "att = (if opt_dequeue opts then dequeueItem sc a s1 else Inr (None, s1))"
  have "\<exists>s2. att = Inr (None, s2) \<and> effects s2 = effects s1
      \<and> visibleItems s2 = visibleItems s1 \<and> pool s2 = pool s1"
  proof (cases "opt_dequeue opts")
    case False
    then show ?thesis by (simp add: att_def)
  next
    case True
    with assms(7) have "pool s1 (getReuseID s1 a) = []" by simp
    from dequeueItem_empty[OF this, of sc] obtain s2 where d: "dequeueItem sc a s1 = Inr (None, s2)"
      by blast
    from dequeueItem_None(2,4)[OF d] dequeueItem_None_effects[OF d] d True show ?thesis
      by (simp add: att_def)
  qed
  then obtain s2 where s2: "att = Inr (None, s2)" "effects s2 = effects s1"
    "visibleItems s2 = visibleItems s1" "pool s2 = pool s1"
    by blast
  define t where "t = setNeedsRender (cancelUpdate s2)"
  have step: "processItemUpdate opts sc u s1 = Inr (True, t)"
    using processItemUpdate_addition[OF assms(4,5), of sc s1] s2(1) assms(6)
    by (simp add: att_def t_def)
  have "processItemUpdates opts sc (itemUpdates sc) (s\<lparr>updating := True\<rparr>) = Inr (True, t)"
    unfolding assms(2) processItemUpdates_append assms(3) using step by simp
  then have "updateItems opts sc s = Inr t"
    using assms(1) by (simp add: updateItems_def updateItems_body_def begin_not_updating)
  moreover have "\<not> updating t" "needsRender t" "effects t = effects s1 @ [SetNeedsRender]"
    "visibleItems t = visibleItems s1"
    using s2 by (simp_all add: t_def setNeedsRender_def cancelUpdate_def ls_endUpdate_def effect_def)
  moreover have "pool t = pool s1"
    using s2(4)
    by (simp add: t_def setNeedsRender_def cancelUpdate_def ls_endUpdate_def effect_def pool_def
        fun_eq_iff)
  ultimately show ?thesis by blast
qed

theorem addition_without_record_aborts_update_witness:
  "\<not> updating (ls_state_of (updateItems defaultOptions (gridSubclass removeThenThreeAdds)
        (gridSource\<lparr>itemQueues := Map.empty\<rparr>)))
   \<and> needsRender (ls_state_of (updateItems defaultOptions (gridSubclass removeThenThreeAdds)
        (gridSource\<lparr>itemQueues := Map.empty\<rparr>)))
   \<and> map is_show (effects (ls_state_of (updateItems defaultOptions
        (gridSubclass removeThenThreeAdds) (gridSource\<lparr>itemQueues := Map.empty\<rparr>))))
       = [False, True, False]
   \<and> last (effects (ls_state_of (updateItems defaultOptions
        (gridSubclass removeThenThreeAdds) (gridSource\<lparr>itemQueues := Map.empty\<rparr>))))
       = SetNeedsRender"
proof -
  define sc where "sc = gridSubclass removeThenThreeAdds"
  define s where "s = gridSource\<lparr>itemQueues := Map.empty\<rparr>"
  define pre where "pre = [Yield \<lparr>add = None, remove = Some (1::nat)\<rparr>,
      Yield \<lparr>add = Some 2, remove = None\<rparr>]"
  define s1 where "s1 = loop_state (processItemUpdates defaultOptions sc pre (s\<lparr>updating := True\<rparr>))"
  have a: "\<not> updating s"
    "itemUpdates sc = pre @ Yield \<lparr>add = Some 3, remove = None\<rparr> # [Yield \<lparr>add = Some 4, remove = None\<rparr>]"
    "add \<lparr>add = Some (3::nat), remove = None\<rparr> = Some 3"
    "\<not> (opt_queue defaultOptions \<and> remove \<lparr>add = Some (3::nat), remove = None\<rparr> \<noteq> None)"
    "\<not> opt_create defaultOptions"
    by (simp_all add: s_def sc_def pre_def gridSource_def gridSubclass_def
        removeThenThreeAdds_def defaultOptions_def)
  have b: "processItemUpdates defaultOptions sc pre (s\<lparr>updating := True\<rparr>) = Inr (False, s1)"
    unfolding s1_def
    by (simp add: ls_defs grid_defs loop_state_def sc_def s_def pre_def)
  have c: "\<not> opt_dequeue defaultOptions \<or> pool s1 (getReuseID s1 3) = []"
    unfolding s1_def
    by (simp add: ls_defs grid_defs loop_state_def sc_def s_def pre_def pool_def)
  have d: "map is_show (effects s1) = [False, True]"
    unfolding s1_def
    by (simp add: ls_defs grid_defs loop_state_def sc_def s_def pre_def)
  from addition_without_record_aborts_update [OF a(1,2) b a(3,4,5) c]
  obtain t where "updateItems defaultOptions sc s = Inr t" "\<not> updating t" "needsRender t"
    "effects t = effects s1 @ [SetNeedsRender]"
    by blast
  then show ?thesis
    using d by (simp add: ls_state_of_def sc_def s_def)
qed

subsection \<open>Recycling\<close>



end
